theory Spec2Isabelle
  imports Complex_Main "HOL-Library.AList" "HOL-Library.Multiset"
begin

section \<open>Python values, exceptions and slices\<close>

text \<open>
  The exceptions the modelled code can raise. All of them are subclasses of Python's
  \<^verbatim>\<open>Exception\<close>, which is what the pipeline's \<^verbatim>\<open>except Exception\<close> catches; each
  carries its message, the value of \<^verbatim>\<open>str(e)\<close>.
\<close>

datatype error = AssertionError string | ValueError string | Exception string

fun str_error :: "error \<Rightarrow> string" where
  "str_error (AssertionError m) = m"
| "str_error (ValueError m) = m"
| "str_error (Exception m) = m"

type_synonym 'a outcome = "error + 'a"

text \<open>
  numpy's floats are modelled by the reals, with rounding and overflow outside the model,
  and by one more value: nan, which numpy returns (with a warning, not an exception) for
  the cosine similarity with a vector of norm zero. Every comparison with nan is false.
\<close>

datatype pyfloat = Float real | NaN

fun py_lt :: "pyfloat \<Rightarrow> pyfloat \<Rightarrow> bool" where
  "py_lt (Float a) (Float b) = (a < b)"
| "py_lt (Float a) NaN = False"
| "py_lt NaN b = False"

fun py_le :: "pyfloat \<Rightarrow> pyfloat \<Rightarrow> bool" where
  "py_le (Float a) (Float b) = (a \<le> b)"
| "py_le (Float a) NaN = False"
| "py_le NaN b = False"

text \<open>
  \<^verbatim>\<open>xs[i:j]\<close> with both bounds given and step 1: a negative bound counts from the end,
  and every bound is clamped to the list.
\<close>

definition clamp_index :: "int \<Rightarrow> nat \<Rightarrow> nat" where
  "clamp_index i n = (if i < 0 then nat (max (i + int n) 0) else min (nat i) n)"

definition py_slice :: "'a list \<Rightarrow> int \<Rightarrow> int \<Rightarrow> 'a list" where
  "py_slice xs i j =
     (let n = length xs; lo = clamp_index i n; hi = clamp_index j n
      in take (hi - lo) (drop lo xs))"

text \<open>The real a float other than nan stands for.\<close>

fun float_value :: "pyfloat \<Rightarrow> real" where
  "float_value (Float a) = a"
| "float_value NaN = 0"

text \<open>
  \<^verbatim>\<open>sorted(xs, key=key, reverse=reverse)\<close> is CPython's \<^verbatim>\<open>list.sort\<close>, which compares
  keys with \<^verbatim>\<open><\<close> only. It first takes the run the list starts with (\<^verbatim>\<open>count_run\<close>): the
  longest prefix in which no key is below its predecessor, or, when the second key is
  below the first, the longest strictly descending prefix, reversed in place.
\<close>

fun ascending_run :: "('a \<Rightarrow> pyfloat) \<Rightarrow> 'a \<Rightarrow> 'a list \<Rightarrow> 'a list \<times> 'a list" where
  "ascending_run key prev [] = ([], [])"
| "ascending_run key prev (x # xs) =
     (if py_lt (key x) (key prev) then ([], x # xs)
      else (let (run, others) = ascending_run key x xs in (x # run, others)))"

fun descending_run :: "('a \<Rightarrow> pyfloat) \<Rightarrow> 'a \<Rightarrow> 'a list \<Rightarrow> 'a list \<times> 'a list" where
  "descending_run key prev [] = ([], [])"
| "descending_run key prev (x # xs) =
     (if py_lt (key x) (key prev)
      then (let (run, others) = descending_run key x xs in (x # run, others))
      else ([], x # xs))"

fun count_run :: "('a \<Rightarrow> pyfloat) \<Rightarrow> 'a list \<Rightarrow> 'a list \<times> 'a list" where
  "count_run key [] = ([], [])"
| "count_run key [a] = ([a], [])"
| "count_run key (a # b # xs) =
     (if py_lt (key b) (key a)
      then (let (run, others) = descending_run key b xs in (rev (a # b # run), others))
      else (let (run, others) = ascending_run key b xs in (a # b # run, others)))"

text \<open>
  Every element after the run is then inserted into the sorted part by binary search
  (\<^verbatim>\<open>binarysort\<close>): the pivot goes left of the middle element when its key is below that
  element's key, and right of it otherwise.
\<close>

function binary_insert :: "('a \<Rightarrow> pyfloat) \<Rightarrow> 'a \<Rightarrow> 'a list \<Rightarrow> 'a list" where
  "binary_insert key pivot ys =
     (if ys = [] then [pivot]
      else if py_lt (key pivot) (key (ys ! (length ys div 2)))
      then binary_insert key pivot (take (length ys div 2) ys) @ drop (length ys div 2) ys
      else take (length ys div 2 + 1) ys
           @ binary_insert key pivot (drop (length ys div 2 + 1) ys))"
  by pat_completeness auto
termination
  by (relation "measure (\<lambda>(key, pivot, ys). length ys)") auto

declare binary_insert.simps [simp del]

text \<open>
  This is all \<^verbatim>\<open>list.sort\<close> (of CPython 3.11) does on a list of fewer than 64 elements.
  A longer list it cuts into runs of that kind and merges them; on keys without nan the
  result is the same list, the stable sort, and the order in which a longer list with
  nan keys comes out is not modelled. Nothing proved below depends on that order.
\<close>

definition list_sort :: "('a \<Rightarrow> pyfloat) \<Rightarrow> 'a list \<Rightarrow> 'a list" where
  "list_sort key xs =
     (let (run, others) = count_run key xs
      in foldl (\<lambda>sorted_part pivot. binary_insert key pivot sorted_part) run others)"

text \<open>
  With \<^verbatim>\<open>reverse=True\<close> the list is reversed, sorted and reversed again, which keeps
  elements of equal keys in their original order.
\<close>

definition py_sorted :: "('a \<Rightarrow> pyfloat) \<Rightarrow> bool \<Rightarrow> 'a list \<Rightarrow> 'a list" where
  "py_sorted key reverse xs =
     (if reverse then rev (list_sort key (rev xs)) else list_sort key xs)"

text \<open>The decimal numeral of an integer, as \<^verbatim>\<open>str(n)\<close> and an f-string print it.\<close>

definition digit_char :: "nat \<Rightarrow> char" where
  "digit_char d = ''0123456789'' ! d"

fun str_nat :: "nat \<Rightarrow> string" where
  "str_nat n = (if n < 10 then [digit_char n] else str_nat (n div 10) @ [digit_char (n mod 10)])"

declare str_nat.simps [simp del]

definition str_int :: "int \<Rightarrow> string" where
  "str_int i = (if i < 0 then CHR ''-'' # str_nat (nat (- i)) else str_nat (nat i))"


section \<open>text\_utils.py: CharacterTextSplitter\<close>

record character_text_splitter =
  chunk_size :: int
  chunk_overlap :: int

text \<open>
  \<^verbatim>\<open>__init__\<close>: the assertion \<^verbatim>\<open>chunk_size > chunk_overlap\<close> is the only check; the
  two sizes are not required to be positive. (The interpreter is taken to run with
  assertions enabled, its default.)
\<close>

definition CharacterTextSplitter :: "int \<Rightarrow> int \<Rightarrow> character_text_splitter outcome" where
  "CharacterTextSplitter csize coverlap =
     (if csize > coverlap
      then Inr \<lparr>chunk_size = csize, chunk_overlap = coverlap\<rparr>
      else Inl (AssertionError ''Chunk size must be greater than chunk overlap''))"

text \<open>
  The loop of \<^verbatim>\<open>split\<close>, \<^verbatim>\<open>for i in range(0, len(text), step)\<close>, from the offset
  \<open>i\<close> on: a window \<^verbatim>\<open>text[i : i + chunk_size]\<close> for every offset below the length of
  the text. A negative step gives the empty range.
\<close>

function split_loop :: "string \<Rightarrow> int \<Rightarrow> int \<Rightarrow> int \<Rightarrow> string list" where
  "split_loop text csize step i =
     (if 0 < step \<and> i < int (length text)
      then py_slice text i (i + csize) # split_loop text csize step (i + step)
      else [])"
  by pat_completeness auto
termination
  by (relation "measure (\<lambda>(text, csize, step, i). nat (int (length text) - i))") auto

declare split_loop.simps [simp del]

text \<open>\<^verbatim>\<open>split\<close>; \<^verbatim>\<open>range\<close> raises on a step of zero.\<close>

definition split :: "character_text_splitter \<Rightarrow> string \<Rightarrow> string list outcome" where
  "split sp text =
     (let step = chunk_size sp - chunk_overlap sp
      in if step = 0 then Inl (ValueError ''range() arg 3 must not be zero'')
         else Inr (split_loop text (chunk_size sp) step 0))"

fun split_texts :: "character_text_splitter \<Rightarrow> string list \<Rightarrow> string list outcome" where
  "split_texts sp [] = Inr []"
| "split_texts sp (text # texts) =
     (case split sp text of
        Inl e \<Rightarrow> Inl e
      | Inr chunks \<Rightarrow>
          (case split_texts sp texts of
             Inl e \<Rightarrow> Inl e
           | Inr others \<Rightarrow> Inr (chunks @ others)))"


section \<open>vectordatabase.py: the metrics\<close>

text \<open>
  A vector is a one-dimensional numpy array. \<^verbatim>\<open>np.dot\<close> of two such arrays raises
  unless they have the same length; \<^verbatim>\<open>a - b\<close> broadcasts an array of length one and
  raises on any other difference of lengths. The components of a vector are reals.
\<close>

type_synonym vec = "real list"

definition np_dot :: "vec \<Rightarrow> vec \<Rightarrow> real outcome" where
  "np_dot a b =
     (if length a = length b then Inr (sum_list (map2 (*) a b))
      else Inl (ValueError ''shapes not aligned''))"

definition np_norm :: "vec \<Rightarrow> real" where
  "np_norm a = sqrt (sum_list (map (\<lambda>x. x * x) a))"

definition np_sub :: "vec \<Rightarrow> vec \<Rightarrow> vec outcome" where
  "np_sub a b =
     (if length a = length b then Inr (map2 (-) a b)
      else if length a = 1 then Inr (map (\<lambda>y. hd a - y) b)
      else if length b = 1 then Inr (map (\<lambda>x. x - hd b) a)
      else Inl (ValueError ''operands could not be broadcast together''))"

definition cosine_similarity :: "vec \<Rightarrow> vec \<Rightarrow> pyfloat outcome" where
  "cosine_similarity vector_a vector_b =
     (case np_dot vector_a vector_b of
        Inl e \<Rightarrow> Inl e
      | Inr dot_product \<Rightarrow>
          (let norm_a = np_norm vector_a; norm_b = np_norm vector_b
           in if norm_a * norm_b = 0 then Inr NaN
              else Inr (Float (dot_product / (norm_a * norm_b)))))"

definition euclidean_distance :: "vec \<Rightarrow> vec \<Rightarrow> pyfloat outcome" where
  "euclidean_distance vector_a vector_b =
     (case np_sub vector_a vector_b of
        Inl e \<Rightarrow> Inl e
      | Inr d \<Rightarrow> Inr (Float (np_norm d)))"

definition manhattan_distance :: "vec \<Rightarrow> vec \<Rightarrow> pyfloat outcome" where
  "manhattan_distance vector_a vector_b =
     (case np_sub vector_a vector_b of
        Inl e \<Rightarrow> Inl e
      | Inr d \<Rightarrow> Inr (Float (sum_list (map abs d))))"


section \<open>vectordatabase.py: the store\<close>

text \<open>
  A metadata dictionary is a Python object that the store and its caller may share, so
  dictionaries live in a heap and a record holds the address of its dictionary. A
  dictionary keeps its keys in insertion order: an association list, written with
  \<open>AList.update\<close> (which replaces a value in place and appends a new key). Addresses
  are positions in the heap; every address the code holds is allocated, and one that is
  not reads as the empty dictionary.
\<close>

datatype pyval = PyNone | PyStr string | PyInt int | PyDatetime string

type_synonym metadata_dict = "(string \<times> pyval) list"

type_synonym addr = nat

type_synonym py_heap = "metadata_dict list"

definition deref :: "py_heap \<Rightarrow> addr \<Rightarrow> metadata_dict" where
  "deref h a = (if a < length h then h ! a else [])"

definition alloc :: "metadata_dict \<Rightarrow> py_heap \<Rightarrow> addr \<times> py_heap" where
  "alloc d h = (length h, h @ [d])"

definition heap_store :: "addr \<Rightarrow> metadata_dict \<Rightarrow> py_heap \<Rightarrow> py_heap" where
  "heap_store a d h = (if a < length h then h[a := d] else h)"

record vector_with_metadata =
  vector :: vec
  metadata :: addr

text \<open>
  The attributes of a \<^verbatim>\<open>VectorDatabase\<close>. \<^verbatim>\<open>chunk_counter\<close> starts at 0 and is only
  ever incremented. \<^verbatim>\<open>distance_functions\<close> is set once, by \<^verbatim>\<open>__init__\<close>, and is the
  constant below. The state the methods run in is the store together with the heap.
\<close>

record vector_database =
  vectors :: "(string \<times> vector_with_metadata) list"
  text_to_key :: "(string \<times> string) list"
  chunk_counter :: nat

record world =
  heap :: py_heap
  vdb :: vector_database

definition VectorDatabase :: vector_database where
  "VectorDatabase = \<lparr>vectors = [], text_to_key = [], chunk_counter = 0\<rparr>"

definition distance_functions :: "(string \<times> (vec \<Rightarrow> vec \<Rightarrow> pyfloat outcome)) list" where
  "distance_functions =
     [(''cosine'', cosine_similarity),
      (''euclidean'', euclidean_distance),
      (''manhattan'', manhattan_distance)]"

text \<open>\<^verbatim>\<open>insert\<close>: a missing metadata argument is replaced by a fresh empty dictionary.\<close>

definition insert_vector :: "string \<Rightarrow> vec \<Rightarrow> addr option \<Rightarrow> world \<Rightarrow> world" where
  "insert_vector key v md w =
     (let (a, h) = (case md of None \<Rightarrow> alloc [] (heap w) | Some a \<Rightarrow> (a, heap w));
          db = vdb w
      in \<lparr>heap = h,
          vdb = db\<lparr>vectors := AList.update key \<lparr>vector = v, metadata = a\<rparr> (vectors db)\<rparr>\<rparr>)"

text \<open>
  The argument \<^verbatim>\<open>distance_measure\<close> of \<^verbatim>\<open>search\<close>: omitted, the name of a metric, or a
  scoring function of the caller.
\<close>

datatype distance_measure =
  DMNone
| DMName string
| DMCallable "vec \<Rightarrow> vec \<Rightarrow> pyfloat outcome"

text \<open>The first statement of \<^verbatim>\<open>search\<close>: the scoring function.\<close>

definition distance_func :: "distance_measure \<Rightarrow> vec \<Rightarrow> vec \<Rightarrow> pyfloat outcome" where
  "distance_func dm =
     (case dm of
        DMNone \<Rightarrow> cosine_similarity
      | DMName name \<Rightarrow>
          (case map_of distance_functions name of
             Some f \<Rightarrow> f
           | None \<Rightarrow> cosine_similarity)
      | DMCallable f \<Rightarrow> f)"

text \<open>
  The flag \<^verbatim>\<open>reverse\<close>:
  \<^verbatim>\<open>distance_measure in ['cosine', None] or (isinstance(distance_measure, str) and distance_measure == 'cosine')\<close>.
  A function is equal neither to a string nor to \<^verbatim>\<open>None\<close>.
\<close>

definition sort_reverse :: "distance_measure \<Rightarrow> bool" where
  "sort_reverse dm =
     (case dm of
        DMNone \<Rightarrow> True
      | DMName name \<Rightarrow> name = ''cosine''
      | DMCallable f \<Rightarrow> False)"

text \<open>
  The test of the loop of \<^verbatim>\<open>search\<close>:
  \<^verbatim>\<open>file_type_filter and metadata.get('file_type') != file_type_filter\<close>. A filter that is
  \<^verbatim>\<open>None\<close> or the empty string is false and skips nothing.
\<close>

definition filtered_out :: "string option \<Rightarrow> metadata_dict \<Rightarrow> bool" where
  "filtered_out file_type_filter md =
     (case file_type_filter of
        None \<Rightarrow> False
      | Some ft \<Rightarrow> ft \<noteq> [] \<and> map_of md ''file_type'' \<noteq> Some (PyStr ft))"

type_synonym search_result = "string \<times> pyfloat \<times> addr"

text \<open>
  The loop of \<^verbatim>\<open>search\<close> over \<^verbatim>\<open>self.vectors.items()\<close>, in insertion order; the first
  scoring call that raises ends the search.
\<close>

fun score_items ::
  "(vec \<Rightarrow> vec \<Rightarrow> pyfloat outcome) \<Rightarrow> vec \<Rightarrow> string option \<Rightarrow> py_heap \<Rightarrow>
   (string \<times> vector_with_metadata) list \<Rightarrow> search_result list outcome" where
  "score_items f query_vector file_type_filter h [] = Inr []"
| "score_items f query_vector file_type_filter h ((key, vwm) # items) =
     (if filtered_out file_type_filter (deref h (metadata vwm))
      then score_items f query_vector file_type_filter h items
      else (case f query_vector (vector vwm) of
              Inl e \<Rightarrow> Inl e
            | Inr score \<Rightarrow>
                (case score_items f query_vector file_type_filter h items of
                   Inl e \<Rightarrow> Inl e
                 | Inr scores \<Rightarrow> Inr ((key, score, metadata vwm) # scores))))"

definition result_score :: "search_result \<Rightarrow> pyfloat" where
  "result_score x = fst (snd x)"

text \<open>
  \<^verbatim>\<open>search\<close>. It assigns no attribute of the store and calls no method on it but
  \<^verbatim>\<open>items\<close>, so the state it returns is the state it was called in.
\<close>

definition search ::
  "vec \<Rightarrow> int \<Rightarrow> distance_measure \<Rightarrow> string option \<Rightarrow> world \<Rightarrow>
   search_result list outcome \<times> world" where
  "search query_vector k dm file_type_filter w =
     (case score_items (distance_func dm) query_vector file_type_filter (heap w)
             (vectors (vdb w)) of
        Inl e \<Rightarrow> (Inl e, w)
      | Inr scores \<Rightarrow>
          (Inr (py_slice (py_sorted result_score (sort_reverse dm) scores) 0 k), w))"

text \<open>The candidates of a search: the records of the store that pass the filter.\<close>

definition candidates :: "string option \<Rightarrow> world \<Rightarrow> (string \<times> vector_with_metadata) list" where
  "candidates file_type_filter w =
     filter (\<lambda>(key, vwm). \<not> filtered_out file_type_filter (deref (heap w) (metadata vwm)))
       (vectors (vdb w))"

text \<open>
  The reverse lookup of \<^verbatim>\<open>search_by_text\<close>: the first text of \<^verbatim>\<open>text_to_key\<close> stored
  under the key, and the key itself when there is none.
\<close>

definition text_for_key :: "(string \<times> string) list \<Rightarrow> string \<Rightarrow> string" where
  "text_for_key items key =
     (case find (\<lambda>(text, stored_key). stored_key = key) items of
        Some (text, stored_key) \<Rightarrow> text
      | None \<Rightarrow> key)"

datatype text_search_result =
  Texts "string list"
| Triples "search_result list"

text \<open>
  \<^verbatim>\<open>search_by_text\<close>; \<open>get_embedding\<close> is the method of the embedding model, which is not
  part of these sources and may raise.
\<close>

definition search_by_text ::
  "(string \<Rightarrow> vec outcome) \<Rightarrow> string \<Rightarrow> int \<Rightarrow> distance_measure \<Rightarrow> bool \<Rightarrow> bool \<Rightarrow>
   string option \<Rightarrow> world \<Rightarrow> text_search_result outcome \<times> world" where
  "search_by_text get_embedding query_text k dm return_as_text include_metadata
     file_type_filter w =
     (case get_embedding query_text of
        Inl e \<Rightarrow> (Inl e, w)
      | Inr query_vector \<Rightarrow>
          (case search query_vector k dm file_type_filter w of
             (Inl e, w1) \<Rightarrow> (Inl e, w1)
           | (Inr results, w1) \<Rightarrow>
               (let text_results =
                      map (\<lambda>(key, score, md).
                             (text_for_key (text_to_key (vdb w1)) key, score, md)) results
                in (Inr (if return_as_text \<and> \<not> include_metadata
                         then Texts (map fst text_results)
                         else Triples text_results), w1))))"

text \<open>
  \<^verbatim>\<open>retrieve_from_key\<close>: \<^verbatim>\<open>self.vectors.get(key, None)\<close>. The store is a
  \<^verbatim>\<open>defaultdict\<close>, but \<^verbatim>\<open>get\<close> never calls the default factory and inserts nothing.
\<close>

definition retrieve_from_key :: "string \<Rightarrow> world \<Rightarrow> vec option \<times> world" where
  "retrieve_from_key key w =
     (case map_of (vectors (vdb w)) key of
        None \<Rightarrow> (None, w)
      | Some vector_with_metadata \<Rightarrow> (Some (vector vector_with_metadata), w))"

text \<open>
  \<^verbatim>\<open>get_database_stats\<close>: the loop counts the file types in a dictionary of its own,
  \<^verbatim>\<open>file_types[file_type] += 1\<close> on a \<^verbatim>\<open>defaultdict(int)\<close>.
\<close>

record database_stats =
  total_vectors :: nat
  file_types :: "(pyval \<times> nat) list"
  available_distance_metrics :: "string list"

fun count_file_types ::
  "py_heap \<Rightarrow> vector_with_metadata list \<Rightarrow> (pyval \<times> nat) list \<Rightarrow> (pyval \<times> nat) list" where
  "count_file_types h [] counts = counts"
| "count_file_types h (vwm # vwms) counts =
     (let file_type = (case map_of (deref h (metadata vwm)) ''file_type'' of
                         None \<Rightarrow> PyStr ''unknown''
                       | Some v \<Rightarrow> v);
          n = (case map_of counts file_type of None \<Rightarrow> 0 | Some c \<Rightarrow> c)
      in count_file_types h vwms (AList.update file_type (n + 1) counts))"

definition get_database_stats :: "world \<Rightarrow> database_stats \<times> world" where
  "get_database_stats w =
     (\<lparr>total_vectors = length (vectors (vdb w)),
       file_types = count_file_types (heap w) (map snd (vectors (vdb w))) [],
       available_distance_metrics = [''cosine'', ''euclidean'', ''manhattan'']\<rparr>, w)"


section \<open>Ingestion: abuild\_from\_list\<close>

text \<open>\<^verbatim>\<open>DocumentMetadata\<close> of text\_utils.py, and its \<^verbatim>\<open>to_dict\<close>.\<close>

record document_metadata =
  filename :: string
  file_type :: string
  size_bytes :: int
  created_date :: "string option"
  modified_date :: "string option"
  page_count :: "int option"
  content_hash :: "string option"
  chunk_index :: "int option"

definition opt_val :: "('a \<Rightarrow> pyval) \<Rightarrow> 'a option \<Rightarrow> pyval" where
  "opt_val f x = (case x of None \<Rightarrow> PyNone | Some v \<Rightarrow> f v)"

definition to_dict :: "document_metadata \<Rightarrow> metadata_dict" where
  "to_dict d =
     [(''filename'', PyStr (filename d)),
      (''file_type'', PyStr (file_type d)),
      (''size'', PyInt (size_bytes d)),
      (''created_date'', opt_val PyDatetime (created_date d)),
      (''modified_date'', opt_val PyDatetime (modified_date d)),
      (''page_count'', opt_val PyInt (page_count d)),
      (''content_hash'', opt_val PyStr (content_hash d)),
      (''chunk_index'', opt_val PyInt (chunk_index d))]"

text \<open>
  An entry of \<^verbatim>\<open>metadata_list\<close>: an object with a \<^verbatim>\<open>to_dict\<close> method, or a dictionary,
  given by its address (of an allocated dictionary) since the loop writes into it.
\<close>

datatype metadata_entry =
  DocumentMetadata document_metadata
| DictObject addr

text \<open>
  The metadata of chunk \<open>i\<close>: the fresh dictionary of \<^verbatim>\<open>to_dict()\<close>, or the caller's own
  dictionary \<^verbatim>\<open>metadata_list[i]\<close>, in both cases with \<^verbatim>\<open>chunk_index\<close> set to \<open>i\<close>; a
  fresh empty dictionary when the list is \<^verbatim>\<open>None\<close>, empty or too short.
\<close>

definition chunk_metadata_for ::
  "metadata_entry list option \<Rightarrow> nat \<Rightarrow> py_heap \<Rightarrow> addr \<times> py_heap" where
  "chunk_metadata_for metadata_list i h =
     (case metadata_list of
        None \<Rightarrow> alloc [] h
      | Some entries \<Rightarrow>
          if entries \<noteq> [] \<and> i < length entries
          then (let (a, h1) = (case entries ! i of
                                 DocumentMetadata d \<Rightarrow> alloc (to_dict d) h
                               | DictObject a \<Rightarrow> (a, h))
                in (a, heap_store a
                         (AList.update ''chunk_index'' (PyInt (int i)) (deref h1 a)) h1))
          else alloc [] h)"

definition chunk_key_of :: "nat \<Rightarrow> string" where
  "chunk_key_of n = ''chunk_'' @ str_nat n"

text \<open>
  The body of the loop of \<^verbatim>\<open>abuild_from_list\<close> for the text at position \<open>i\<close>: the
  next key, the counter, the metadata, the reverse mapping and the insertion.
\<close>

definition abuild_step ::
  "metadata_entry list option \<Rightarrow> nat \<Rightarrow> string \<Rightarrow> vec \<Rightarrow> world \<Rightarrow> world" where
  "abuild_step metadata_list i text embedding w =
     (let db = vdb w;
          chunk_key = chunk_key_of (chunk_counter db);
          db1 = db\<lparr>chunk_counter := chunk_counter db + 1\<rparr>;
          (chunk_metadata, h1) = chunk_metadata_for metadata_list i (heap w);
          db2 = db1\<lparr>text_to_key := AList.update text chunk_key (text_to_key db1)\<rparr>
      in insert_vector chunk_key embedding (Some chunk_metadata) \<lparr>heap = h1, vdb = db2\<rparr>)"

text \<open>
  The loop \<^verbatim>\<open>for i, (text, embedding) in enumerate(zip(list_of_text, embeddings))\<close>,
  from position \<open>i\<close> on.
\<close>

fun abuild_loop ::
  "metadata_entry list option \<Rightarrow> nat \<Rightarrow> (string \<times> vec) list \<Rightarrow> world \<Rightarrow> world" where
  "abuild_loop metadata_list i [] w = w"
| "abuild_loop metadata_list i ((text, embedding) # pairs) w =
     abuild_loop metadata_list (i + 1) pairs (abuild_step metadata_list i text embedding w)"

text \<open>
  \<^verbatim>\<open>abuild_from_list\<close>; \<open>async_get_embeddings\<close> is the batched method of the embedding
  model, awaited once before the loop.
\<close>

definition abuild_from_list ::
  "(string list \<Rightarrow> vec list outcome) \<Rightarrow> string list \<Rightarrow> metadata_entry list option \<Rightarrow>
   world \<Rightarrow> unit outcome \<times> world" where
  "abuild_from_list async_get_embeddings list_of_text metadata_list w =
     (case async_get_embeddings list_of_text of
        Inl e \<Rightarrow> (Inl e, w)
      | Inr embeddings \<Rightarrow>
          (Inr (), abuild_loop metadata_list 0 (zip list_of_text embeddings) w))"


section \<open>enhanced\_rag\_pipeline.py: query\<close>

record pipeline_stats =
  documents_processed :: nat
  chunks_created :: nat
  queries_processed :: nat
  txt_files_processed :: nat
  pdf_files_processed :: nat
  youtube_videos_processed :: nat

record enhanced_rag_pipeline =
  distance_metric :: string
  text_splitter :: character_text_splitter
  stats :: pipeline_stats

record message =
  role :: string
  content :: string

text \<open>
  What \<^verbatim>\<open>query\<close> calls and these sources do not hold: the embedding of the query, the
  chat model's \<^verbatim>\<open>run(messages, temperature)\<close>, both of which may raise, and the float
  format \<^verbatim>\<open>f"{score:.3f}"\<close>.
\<close>

record collaborators =
  get_embedding :: "string \<Rightarrow> vec outcome"
  chat_run :: "message list \<Rightarrow> int \<Rightarrow> string outcome"
  format_3f :: "pyfloat \<Rightarrow> string"

record query_success =
  response :: string
  context_texts :: "string list"
  relevance_scores :: "string list"
  sources :: "string list"
  full_results :: "search_result list option"

datatype query_result =
  QuerySuccess query_success
| QueryFailure string

definition str_pyval :: "pyval \<Rightarrow> string" where
  "str_pyval v =
     (case v of
        PyNone \<Rightarrow> ''None''
      | PyStr s \<Rightarrow> s
      | PyInt i \<Rightarrow> str_int i
      | PyDatetime s \<Rightarrow> s)"

definition get_str :: "metadata_dict \<Rightarrow> string \<Rightarrow> string \<Rightarrow> string" where
  "get_str md key dflt =
     (case map_of md key of None \<Rightarrow> dflt | Some v \<Rightarrow> str_pyval v)"

text \<open>The label of a source; an empty dictionary is false.\<close>

definition source_label :: "metadata_dict \<Rightarrow> string" where
  "source_label metadata_dict =
     (if metadata_dict \<noteq> []
      then get_str metadata_dict ''filename'' ''Unknown'' @ ''_chunk_''
           @ get_str metadata_dict ''chunk_index'' ''N/A'' @ '' (''
           @ get_str metadata_dict ''file_type'' ''N/A'' @ '')''
      else ''Unknown Source'')"

definition newline :: char where
  "newline = CHR 0x0A"

definition apostrophe :: char where
  "apostrophe = CHR 0x27"

fun join :: "string \<Rightarrow> string list \<Rightarrow> string" where
  "join sep [] = []"
| "join sep [x] = x"
| "join sep (x # y # ys) = x @ sep @ join sep (y # ys)"

definition system_message :: "string \<Rightarrow> message" where
  "system_message response_style =
     \<lparr>role = ''system'',
      content =
        ''You are a helpful assistant that answers questions based strictly on the provided context. ''
        @ ''Keep responses '' @ response_style @ ''. If the context doesn'' @ [apostrophe]
        @ ''t contain relevant information, respond with '' @ [apostrophe] @ ''I don''
        @ [apostrophe] @ ''t know'' @ [apostrophe] @ ''.''\<rparr>"

definition user_message :: "string \<Rightarrow> string \<Rightarrow> message" where
  "user_message context_string user_query =
     \<lparr>role = ''user'',
      content = ''Context: '' @ context_string @ [newline, newline] @ ''Question: ''
                @ user_query\<rparr>"

text \<open>
  The metric of a query, \<^verbatim>\<open>distance_metric or self.distance_metric\<close>: a name, the
  pipeline's own when the argument is \<^verbatim>\<open>None\<close> or empty. Then the body of the \<^verbatim>\<open>try\<close>
  block of \<^verbatim>\<open>query\<close>. The debugging prints of the source are left out. With \<^verbatim>\<open>return_as_text\<close> false the search returns triples; the branch for
  a list of bare texts is never taken (there the unpacking of the loop would raise).
\<close>

definition actual_distance_metric :: "string option \<Rightarrow> enhanced_rag_pipeline \<Rightarrow> string" where
  "actual_distance_metric metric p =
     (case metric of
        None \<Rightarrow> distance_metric p
      | Some name \<Rightarrow> if name = [] then distance_metric p else name)"

definition query_body ::
  "collaborators \<Rightarrow> string \<Rightarrow> int \<Rightarrow> string option \<Rightarrow> string \<Rightarrow> bool \<Rightarrow> string option \<Rightarrow>
   enhanced_rag_pipeline \<Rightarrow> world \<Rightarrow> query_result outcome \<times> world" where
  "query_body env user_query k metric response_style include_metadata file_type_filter p w =
     (case search_by_text (get_embedding env) user_query k
             (DMName (actual_distance_metric metric p)) False True file_type_filter w of
           (Inl e, w1) \<Rightarrow> (Inl e, w1)
         | (Inr (Texts texts), w1) \<Rightarrow>
             (Inl (ValueError ''not enough values to unpack''), w1)
         | (Inr (Triples relevant_results), w1) \<Rightarrow>
             (let context_list = map fst relevant_results;
                  scores = map (\<lambda>r. format_3f env (result_score r)) relevant_results;
                  labels = map (\<lambda>(text, score, md). source_label (deref (heap w1) md))
                             relevant_results;
                  context_string = join [newline, newline] context_list
              in case chat_run env
                        [system_message response_style,
                         user_message context_string user_query] 0 of
                   Inl e \<Rightarrow> (Inl e, w1)
                 | Inr answer \<Rightarrow>
                     (Inr (QuerySuccess
                        \<lparr>response = answer,
                         context_texts = context_list,
                         relevance_scores = scores,
                         sources = labels,
                         full_results =
                           (if include_metadata then Some relevant_results else None)\<rparr>),
                      w1)))"

text \<open>
  \<^verbatim>\<open>query\<close>: the counter is incremented before the \<^verbatim>\<open>try\<close> block, and
  \<^verbatim>\<open>except Exception as e\<close> turns every exception of the block into the result
  \<^verbatim>\<open>{'success': False, 'error': str(e)}\<close>.
\<close>

definition query ::
  "collaborators \<Rightarrow> string \<Rightarrow> int \<Rightarrow> string option \<Rightarrow> string \<Rightarrow> bool \<Rightarrow> string option \<Rightarrow>
   enhanced_rag_pipeline \<Rightarrow> world \<Rightarrow>
   query_result outcome \<times> enhanced_rag_pipeline \<times> world" where
  "query env user_query k metric response_style include_metadata file_type_filter p w =
     (let st = stats p;
          p1 = p\<lparr>stats := st\<lparr>queries_processed := queries_processed st + 1\<rparr>\<rparr>
      in case query_body env user_query k metric response_style include_metadata
                file_type_filter p1 w of
           (Inl e, w1) \<Rightarrow> (Inr (QueryFailure (str_error e)), p1, w1)
         | (Inr result, w1) \<Rightarrow> (Inr result, p1, w1))"


section \<open>Invariants of the store\<close>

text \<open>
  The keys of the store in insertion order, and the \<^verbatim>\<open>chunk_index\<close> its records carry,
  read through the heap.
\<close>

definition keys_of :: "world \<Rightarrow> string list" where
  "keys_of w = map fst (vectors (vdb w))"

definition chunk_indices :: "world \<Rightarrow> pyval option list" where
  "chunk_indices w =
     map (\<lambda>(key, vwm). map_of (deref (heap w) (metadata vwm)) ''chunk_index'')
       (vectors (vdb w))"

text \<open>
  What ingestion keeps true of a store filled by ingestion alone: the keys are distinct
  and were drawn from the counter, and every record holds an allocated dictionary.
\<close>

definition keys_inv :: "world \<Rightarrow> bool" where
  "keys_inv w =
     (distinct (keys_of w)
      \<and> (\<forall>key \<in> set (keys_of w). \<exists>n < chunk_counter (vdb w). key = chunk_key_of n))"

definition refs_inv :: "world \<Rightarrow> bool" where
  "refs_inv w = (\<forall>(key, vwm) \<in> set (vectors (vdb w)). metadata vwm < length (heap w))"


section \<open>Example states\<close>

text \<open>
  A store of two records with orthogonal unit vectors and empty metadata, as two
  ingested chunks without metadata leave it.
\<close>

definition two_chunks :: world where
  "two_chunks =
     \<lparr>heap = [[], []],
      vdb = \<lparr>vectors = [(''chunk_0'', \<lparr>vector = [1, 0], metadata = 0\<rparr>),
                        (''chunk_1'', \<lparr>vector = [0, 1], metadata = 1\<rparr>)],
             text_to_key = [(''cats'', ''chunk_0''), (''dogs'', ''chunk_1'')],
             chunk_counter = 2\<rparr>\<rparr>"



text \<open>A store of three records whose metadata carries a file type.\<close>

definition typed_chunks :: world where
  "typed_chunks =
     \<lparr>heap = [[(''file_type'', PyStr ''txt'')], [(''file_type'', PyStr ''pdf'')],
              [(''file_type'', PyStr ''txt'')]],
      vdb = \<lparr>vectors = [(''chunk_0'', \<lparr>vector = [1, 0], metadata = 0\<rparr>),
                        (''chunk_1'', \<lparr>vector = [0, 1], metadata = 1\<rparr>),
                        (''chunk_2'', \<lparr>vector = [1, 1], metadata = 2\<rparr>)],
             text_to_key = [],
             chunk_counter = 3\<rparr>\<rparr>"

text \<open>
  An empty store beside one dictionary of the caller,
  \<^verbatim>\<open>md = {'file_type': 'txt'}\<close>, at address 0; and an embedding model that embeds
  every text as the same vector.
\<close>

definition shared_dict :: world where
  "shared_dict = \<lparr>heap = [[(''file_type'', PyStr ''txt'')]], vdb = VectorDatabase\<rparr>"

definition unit_embeddings :: "string list \<Rightarrow> vec list outcome" where
  "unit_embeddings texts = Inr (map (\<lambda>t. [1, 0]) texts)"

text \<open>The metadata of a text file, as the loader builds it.\<close>

definition a_txt :: document_metadata where
  "a_txt =
     \<lparr>filename = ''a.txt'', file_type = ''txt'', size_bytes = 2, created_date = None,
      modified_date = None, page_count = Some 1, content_hash = None, chunk_index = None\<rparr>"

text \<open>
  Collaborators: a chat model that raises, an embedding model that raises, an embedding
  model of another dimension than the store's; and a pipeline as \<^verbatim>\<open>__init__\<close> leaves
  it.
\<close>

definition failing_chat :: collaborators where
  "failing_chat =
     \<lparr>get_embedding = (\<lambda>t. Inr [1, 0]),
      chat_run = (\<lambda>messages temperature. Inl (Exception ''rate limit'')),
      format_3f = (\<lambda>x. ''0.000'')\<rparr>"

definition failing_embedding :: collaborators where
  "failing_embedding =
     \<lparr>get_embedding = (\<lambda>t. Inl (Exception ''no api key'')),
      chat_run = (\<lambda>messages temperature. Inr ''answer''),
      format_3f = (\<lambda>x. ''0.000'')\<rparr>"

definition wrong_dimension :: collaborators where
  "wrong_dimension =
     \<lparr>get_embedding = (\<lambda>t. Inr [1, 0, 0]),
      chat_run = (\<lambda>messages temperature. Inr ''answer''),
      format_3f = (\<lambda>x. ''0.000'')\<rparr>"

definition fresh_pipeline :: enhanced_rag_pipeline where
  "fresh_pipeline =
     \<lparr>distance_metric = ''cosine'',
      text_splitter = \<lparr>chunk_size = 1000, chunk_overlap = 200\<rparr>,
      stats = \<lparr>documents_processed = 0, chunks_created = 0, queries_processed = 0,
               txt_files_processed = 0, pdf_files_processed = 0,
               youtube_videos_processed = 0\<rparr>\<rparr>"


section \<open>Properties of the splitter\<close>

lemma py_slice_whole: "int (length xs) \<le> j \<Longrightarrow> py_slice xs 0 j = xs"
  by (simp add: py_slice_def clamp_index_def Let_def)

lemma split_loop_past: "int (length text) \<le> i \<Longrightarrow> split_loop text csize step i = []"
  by (simp add: split_loop.simps)

lemma split_loop_step:
  "0 < step \<Longrightarrow> i < int (length text) \<Longrightarrow>
   split_loop text csize step i
     = py_slice text i (i + csize) # split_loop text csize step (i + step)"
  by (subst split_loop.simps) simp

text \<open>The example of the specification: sizes 4 and 2 on a text of ten characters.\<close>

lemma split_example:
  "split \<lparr>chunk_size = 4, chunk_overlap = 2\<rparr> ''ABCDEFGHIJ''
     = Inr [''ABCD'', ''CDEF'', ''EFGH'', ''GHIJ'', ''IJ'']"
  by (simp add: split_def split_loop.simps py_slice_def clamp_index_def)

text \<open>
  Claim C8. Constructing a splitter with \<open>chunk_size \<le> chunk_overlap\<close> fails (the
  assertion of \<^verbatim>\<open>__init__\<close> raises), for all integers; with
  \<open>chunk_size > chunk_overlap\<close> it succeeds and stores the two sizes.
\<close>

theorem splitter_construction:
  "(csize \<le> coverlap \<longrightarrow>
      (\<exists>m. CharacterTextSplitter csize coverlap = Inl (AssertionError m)))
   \<and> (csize > coverlap \<longrightarrow>
        CharacterTextSplitter csize coverlap
          = Inr \<lparr>chunk_size = csize, chunk_overlap = coverlap\<rparr>)"
  by (simp add: CharacterTextSplitter_def)

theorem splitter_construction_witness:
  "(\<exists>m. CharacterTextSplitter 2 4 = Inl (AssertionError m))
   \<and> (\<exists>m. CharacterTextSplitter 3 3 = Inl (AssertionError m))
   \<and> CharacterTextSplitter 4 2 = Inr \<lparr>chunk_size = 4, chunk_overlap = 2\<rparr>"
  using splitter_construction [of 2 4] splitter_construction [of 3 3]
    splitter_construction [of 4 2]
  by simp

text \<open>
  Claim C3, as stated: a text shorter than \<open>chunk_overlap\<close> yields exactly one window,
  the whole text. It fails twice. With sizes 4 and 3 the stride is 1, and the text
  \<^verbatim>\<open>"ab"\<close>, shorter than the overlap, yields the two windows \<^verbatim>\<open>"ab"\<close> and \<^verbatim>\<open>"b"\<close>; and
  the empty text yields no window at all, since \<^verbatim>\<open>range(0, 0, 1)\<close> is empty.
\<close>

theorem split_short_text_counterexample:
  "CharacterTextSplitter 4 3 = Inr \<lparr>chunk_size = 4, chunk_overlap = 3\<rparr>
   \<and> int (length ''ab'') < 3
   \<and> split \<lparr>chunk_size = 4, chunk_overlap = 3\<rparr> ''ab'' = Inr [''ab'', ''b'']
   \<and> split \<lparr>chunk_size = 4, chunk_overlap = 3\<rparr> [] = Inr []"
  by (simp add: CharacterTextSplitter_def split_def split_loop.simps py_slice_def
      clamp_index_def)

text \<open>
  Claim C3, amended. For a validly constructed splitter with positive sizes and a text
  shorter than \<open>chunk_overlap\<close>, \<^verbatim>\<open>split\<close> returns exactly one window equal to the whole
  text if and only if the text is not empty and its length is at most the stride
  \<open>chunk_size - chunk_overlap\<close>.
\<close>

theorem split_single_window_iff:
  assumes "CharacterTextSplitter csize coverlap = Inr sp"
    and "0 < csize" and "0 < coverlap"
    and "int (length text) < coverlap"
  shows "(split sp text = Inr [text])
         = (text \<noteq> [] \<and> int (length text) \<le> csize - coverlap)"
proof -
  from assms(1) have gt: "coverlap < csize"
    and sp: "sp = \<lparr>chunk_size = csize, chunk_overlap = coverlap\<rparr>"
    by (auto simp: CharacterTextSplitter_def split: if_splits)
  define step where "step = csize - coverlap"
  have step: "0 < step" using gt by (simp add: step_def)
  have sp_eq: "split sp text = Inr (split_loop text csize step 0)"
    using step by (simp add: split_def sp step_def)
  show ?thesis
  proof (cases "text = []")
    case True
    with sp_eq have "split sp text = Inr []" by (simp add: split_loop.simps)
    with True show ?thesis by simp
  next
    case False
    then have pos: "0 < int (length text)" by simp
    have first: "py_slice text 0 (0 + csize) = text"
      using assms(4) gt by (intro py_slice_whole) simp
    have unfold: "split_loop text csize step 0 = text # split_loop text csize step step"
      using split_loop_step [OF step pos, of csize] first by simp
    show ?thesis
    proof (cases "int (length text) \<le> step")
      case True
      then show ?thesis using False unfold sp_eq
        by (simp add: split_loop_past step_def)
    next
      case False
      then have "step < int (length text)" by simp
      then have "split_loop text csize step step \<noteq> []"
        using split_loop_step [OF step, of step "text" csize] by simp
      then show ?thesis using False unfold sp_eq by (simp add: step_def)
    qed
  qed
qed

theorem split_single_window_iff_witness:
  "CharacterTextSplitter 4 2 = Inr \<lparr>chunk_size = 4, chunk_overlap = 2\<rparr>
   \<and> int (length ''a'') < 2
   \<and> split \<lparr>chunk_size = 4, chunk_overlap = 2\<rparr> ''a'' = Inr [''a'']"
proof -
  have c: "CharacterTextSplitter 4 2 = Inr \<lparr>chunk_size = 4, chunk_overlap = 2\<rparr>"
    by (simp add: CharacterTextSplitter_def)
  show ?thesis using c split_single_window_iff [OF c, of "''a''"] by simp
qed

section \<open>Properties of sorted\<close>

subsection \<open>The result is a permutation\<close>

lemma ascending_run_append:
  "ascending_run key prev xs = (run, others) \<Longrightarrow> run @ others = xs"
  by (induction xs arbitrary: prev run others) (auto split: if_splits prod.splits)

lemma descending_run_append:
  "descending_run key prev xs = (run, others) \<Longrightarrow> run @ others = xs"
  by (induction xs arbitrary: prev run others) (auto split: if_splits prod.splits)

lemma mset_count_run:
  "count_run key xs = (run, others) \<Longrightarrow> mset run + mset others = mset xs"
proof (induction key xs rule: count_run.induct)
  case (3 key a b xs)
  then show ?case
    by (auto split: if_splits prod.splits
        dest!: ascending_run_append descending_run_append)
qed simp_all

lemma mset_binary_insert: "mset (binary_insert key pivot ys) = add_mset pivot (mset ys)"
proof (induction key pivot ys rule: binary_insert.induct)
  case (1 key pivot ys)
  show ?case
  proof (cases "ys = []")
    case True
    then show ?thesis by (subst binary_insert.simps) simp
  next
    case False
    let ?p = "length ys div 2"
    have split1: "mset (take ?p ys) + mset (drop ?p ys) = mset ys"
      by (metis append_take_drop_id mset_append)
    have split2: "mset (take (?p + 1) ys) + mset (drop (?p + 1) ys) = mset ys"
      by (metis append_take_drop_id mset_append)
    show ?thesis
    proof (cases "py_lt (key pivot) (key (ys ! ?p))")
      case True
      with False "1.IH"(1) split1 show ?thesis
        by (subst binary_insert.simps) (simp add: ac_simps)
    next
      case lt: False
      with False "1.IH"(2) split2 show ?thesis
        by (subst binary_insert.simps) (simp add: ac_simps)
    qed
  qed
qed

lemma mset_foldl_binary_insert:
  "mset (foldl (\<lambda>sorted_part pivot. binary_insert key pivot sorted_part) run others)
     = mset run + mset others"
  by (induction others arbitrary: run) (simp_all add: mset_binary_insert)

lemma mset_list_sort: "mset (list_sort key xs) = mset xs"
  by (cases "count_run key xs")
     (simp add: list_sort_def mset_foldl_binary_insert mset_count_run)

lemma mset_py_sorted: "mset (py_sorted key r xs) = mset xs"
  by (simp add: py_sorted_def mset_list_sort)

lemma set_py_sorted: "set (py_sorted key r xs) = set xs"
  by (metis mset_py_sorted set_mset_mset)

lemma length_py_sorted: "length (py_sorted key r xs) = length xs"
  by (metis mset_py_sorted size_mset)

subsection \<open>Keys without nan come out in order\<close>

lemma py_lt_float_value:
  "a \<noteq> NaN \<Longrightarrow> b \<noteq> NaN \<Longrightarrow> py_lt a b = (float_value a < float_value b)"
  by (cases a; cases b) simp_all

lemma py_le_float_value:
  "a \<noteq> NaN \<Longrightarrow> b \<noteq> NaN \<Longrightarrow> py_le a b = (float_value a \<le> float_value b)"
  by (cases a; cases b) simp_all

lemma ascending_run_sorted:
  "ascending_run key prev xs = (run, others) \<Longrightarrow> key prev \<noteq> NaN \<Longrightarrow>
   \<forall>x \<in> set xs. key x \<noteq> NaN \<Longrightarrow>
   sorted (map (\<lambda>x. float_value (key x)) (prev # run))"
proof (induction xs arbitrary: prev run others)
  case Nil
  then show ?case by simp
next
  case (Cons x xs)
  show ?case
  proof (cases "py_lt (key x) (key prev)")
    case True
    with Cons.prems(1) show ?thesis by simp
  next
    case False
    with Cons.prems(1) obtain run1 where r: "ascending_run key x xs = (run1, others)"
      and run: "run = x # run1"
      by (auto split: prod.splits)
    from Cons.prems have nx: "key x \<noteq> NaN" and nxs: "\<forall>y \<in> set xs. key y \<noteq> NaN" by simp_all
    from False nx Cons.prems(2) have "float_value (key prev) \<le> float_value (key x)"
      by (simp add: py_lt_float_value)
    with Cons.IH [OF r nx nxs] run show ?thesis by (auto intro: order_trans)
  qed
qed

lemma descending_run_sorted:
  "descending_run key prev xs = (run, others) \<Longrightarrow> key prev \<noteq> NaN \<Longrightarrow>
   \<forall>x \<in> set xs. key x \<noteq> NaN \<Longrightarrow>
   sorted_wrt (\<lambda>a b. float_value (key b) < float_value (key a)) (prev # run)"
proof (induction xs arbitrary: prev run others)
  case Nil
  then show ?case by simp
next
  case (Cons x xs)
  show ?case
  proof (cases "py_lt (key x) (key prev)")
    case False
    with Cons.prems(1) show ?thesis by simp
  next
    case True
    with Cons.prems(1) obtain run1 where r: "descending_run key x xs = (run1, others)"
      and run: "run = x # run1"
      by (auto split: prod.splits)
    from Cons.prems have nx: "key x \<noteq> NaN" and nxs: "\<forall>y \<in> set xs. key y \<noteq> NaN" by simp_all
    from True nx Cons.prems(2) have "float_value (key x) < float_value (key prev)"
      by (simp add: py_lt_float_value)
    with Cons.IH [OF r nx nxs] run show ?thesis by fastforce
  qed
qed

lemma count_run_sorted:
  assumes "count_run key xs = (run, others)" and "\<forall>x \<in> set xs. key x \<noteq> NaN"
  shows "sorted (map (\<lambda>x. float_value (key x)) run)"
proof (cases xs)
  case Nil
  with assms show ?thesis by simp
next
  case (Cons a ys)
  show ?thesis
  proof (cases ys)
    case Nil
    with Cons assms show ?thesis by auto
  next
    case ys: (Cons b zs)
    from assms(2) Cons ys have na: "key a \<noteq> NaN" and nb: "key b \<noteq> NaN"
      and nz: "\<forall>x \<in> set zs. key x \<noteq> NaN" by simp_all
    show ?thesis
    proof (cases "py_lt (key b) (key a)")
      case True
      with assms(1) Cons ys obtain run1 where r: "descending_run key b zs = (run1, others)"
        and run: "run = rev (a # b # run1)"
        by (auto split: prod.splits)
      from True na nb have ab: "float_value (key b) < float_value (key a)"
        by (simp add: py_lt_float_value)
      from descending_run_sorted [OF r nb nz] ab
      have "sorted_wrt (\<lambda>x y. float_value (key y) < float_value (key x)) (a # b # run1)"
        by fastforce
      then have "sorted_wrt (\<lambda>x y. float_value (key y) \<le> float_value (key x)) (a # b # run1)"
        by (rule sorted_wrt_mono_rel [rotated]) simp
      then show ?thesis
        unfolding run by (simp only: sorted_wrt_map sorted_wrt_rev)
    next
      case False
      with assms(1) Cons ys obtain run1 where r: "ascending_run key b zs = (run1, others)"
        and run: "run = a # b # run1"
        by (auto split: prod.splits)
      from False na nb have "float_value (key a) \<le> float_value (key b)"
        by (simp add: py_lt_float_value)
      with ascending_run_sorted [OF r nb nz] run show ?thesis
        by (auto intro: order_trans)
    qed
  qed
qed

lemma set_binary_insert: "set (binary_insert key pivot ys) = insert pivot (set ys)"
  by (metis mset_binary_insert set_mset_add_mset_insert set_mset_mset)

lemma binary_insert_sorted:
  "key pivot \<noteq> NaN \<Longrightarrow> \<forall>y \<in> set ys. key y \<noteq> NaN \<Longrightarrow>
   sorted (map (\<lambda>x. float_value (key x)) ys) \<Longrightarrow>
   sorted (map (\<lambda>x. float_value (key x)) (binary_insert key pivot ys))"
proof (induction key pivot ys rule: binary_insert.induct)
  case (1 key pivot ys)
  let ?f = "\<lambda>x. float_value (key x)"
  show ?case
  proof (cases "ys = []")
    case True
    then show ?thesis by (subst binary_insert.simps) simp
  next
    case False
    let ?p = "length ys div 2"
    from False have p: "?p < length ys" by simp
    let ?l = "take ?p ys" and ?r = "drop ?p ys"
    have mid: "ys ! ?p \<in> set ys" using p by simp
    have sl: "sorted (map ?f (take n ys))" and sr: "sorted (map ?f (drop n ys))" for n
      using "1.prems"(3) by (simp_all add: sorted_wrt_take sorted_wrt_drop sorted_wrt_map)
    have nl: "\<forall>y \<in> set (take n ys). key y \<noteq> NaN"
      and nr: "\<forall>y \<in> set (drop n ys). key y \<noteq> NaN" for n
      using "1.prems"(2) by (auto dest: in_set_takeD in_set_dropD)
    have below: "?f a \<le> ?f (ys ! ?p)" if "a \<in> set (take (?p + 1) ys)" for a
    proof -
      from that obtain i where i: "i < ?p + 1" "i < length ys" and a: "a = ys ! i"
        by (auto simp: in_set_conv_nth)
      from "1.prems"(3) have "sorted_wrt (\<lambda>x y. ?f x \<le> ?f y) ys" by (simp add: sorted_wrt_map)
      then show ?thesis
        using i p a by (cases "i = ?p") (auto simp: sorted_wrt_iff_nth_less)
    qed
    have above: "?f (ys ! ?p) \<le> ?f b" if "b \<in> set (drop ?p ys)" for b
    proof -
      from that obtain j where "j < length (drop ?p ys)" and "b = drop ?p ys ! j"
        by (auto simp: in_set_conv_nth)
      then obtain i where i: "?p + i < length ys" and b: "b = ys ! (?p + i)"
        by (intro that [of j]) simp_all
      from "1.prems"(3) have "sorted_wrt (\<lambda>x y. ?f x \<le> ?f y) ys" by (simp add: sorted_wrt_map)
      then show ?thesis
        using i b by (cases "i = 0") (auto simp: sorted_wrt_iff_nth_less)
    qed
    show ?thesis
    proof (cases "py_lt (key pivot) (key (ys ! ?p))")
      case True
      with "1.prems"(1,2) mid have lt: "?f pivot < ?f (ys ! ?p)"
        by (simp add: py_lt_float_value)
      have ih: "sorted (map ?f (binary_insert key pivot ?l))"
        by (rule "1.IH"(1) [OF False True "1.prems"(1) nl sl])
      have cross: "?f a \<le> ?f b"
        if "a \<in> set (binary_insert key pivot ?l)" and "b \<in> set ?r" for a b
      proof -
        have "set (take ?p ys) \<subseteq> set (take (?p + 1) ys)"
          by (rule set_take_subset_set_take) simp
        with that(1) have "a = pivot \<or> a \<in> set (take (?p + 1) ys)"
          by (auto simp: set_binary_insert)
        with lt below have "?f a \<le> ?f (ys ! ?p)" by auto
        with above [OF that(2)] show ?thesis by simp
      qed
      have "binary_insert key pivot ys = binary_insert key pivot ?l @ ?r"
        using False True by (subst binary_insert.simps) simp
      with ih sr [of ?p] cross show ?thesis
        by (simp add: sorted_append)
    next
      case ge: False
      with "1.prems"(1,2) mid have ge': "?f (ys ! ?p) \<le> ?f pivot"
        by (simp add: py_lt_float_value)
      have ih: "sorted (map ?f (binary_insert key pivot (drop (?p + 1) ys)))"
        by (rule "1.IH"(2) [OF False ge "1.prems"(1) nr sr])
      have cross: "?f a \<le> ?f b"
        if "a \<in> set (take (?p + 1) ys)" and "b \<in> set (binary_insert key pivot (drop (?p + 1) ys))"
        for a b
      proof -
        have "set (drop (?p + 1) ys) \<subseteq> set (drop ?p ys)"
          by (rule set_drop_subset_set_drop) simp
        with that(2) have "b = pivot \<or> b \<in> set (drop ?p ys)"
          by (auto simp: set_binary_insert)
        with ge' above have "?f (ys ! ?p) \<le> ?f b" by auto
        with below [OF that(1)] show ?thesis by simp
      qed
      have "binary_insert key pivot ys
              = take (?p + 1) ys @ binary_insert key pivot (drop (?p + 1) ys)"
        using False ge by (subst binary_insert.simps) simp
      with ih sl [of "?p + 1"] cross show ?thesis
        by (simp add: sorted_append)
    qed
  qed
qed

lemma foldl_binary_insert_sorted:
  "\<forall>x \<in> set run \<union> set others. key x \<noteq> NaN \<Longrightarrow>
   sorted (map (\<lambda>x. float_value (key x)) run) \<Longrightarrow>
   sorted (map (\<lambda>x. float_value (key x))
     (foldl (\<lambda>sorted_part pivot. binary_insert key pivot sorted_part) run others))"
proof (induction others arbitrary: run)
  case Nil
  then show ?case by simp
next
  case (Cons pivot others)
  have "sorted (map (\<lambda>x. float_value (key x)) (binary_insert key pivot run))"
    using Cons.prems by (intro binary_insert_sorted) simp_all
  moreover have "\<forall>x \<in> set (binary_insert key pivot run) \<union> set others. key x \<noteq> NaN"
    using Cons.prems(1) by (auto simp: set_binary_insert)
  ultimately show ?case using Cons.IH by simp
qed

lemma list_sort_sorted:
  assumes "\<forall>x \<in> set xs. key x \<noteq> NaN"
  shows "sorted (map (\<lambda>x. float_value (key x)) (list_sort key xs))"
proof -
  obtain run others where c: "count_run key xs = (run, others)"
    by (cases "count_run key xs")
  from mset_count_run [OF c] have "set run \<union> set others = set xs"
    by (metis set_mset_mset set_mset_union)
  with assms have n: "\<forall>x \<in> set run \<union> set others. key x \<noteq> NaN" by simp
  from foldl_binary_insert_sorted [OF n count_run_sorted [OF c assms]] c
  show ?thesis by (simp add: list_sort_def)
qed

text \<open>
  On keys without nan, \<^verbatim>\<open>sorted\<close> returns the keys in non-decreasing order, and with
  \<^verbatim>\<open>reverse=True\<close> in non-increasing order.
\<close>

lemma py_sorted_ascending:
  assumes "\<forall>x \<in> set xs. key x \<noteq> NaN"
  shows "sorted_wrt (\<lambda>a b. py_le (key a) (key b)) (py_sorted key False xs)"
proof -
  have "sorted_wrt (\<lambda>a b. float_value (key a) \<le> float_value (key b)) (list_sort key xs)"
    using list_sort_sorted [OF assms] by (simp add: sorted_wrt_map)
  moreover have "\<forall>x \<in> set (list_sort key xs). key x \<noteq> NaN"
    using assms by (metis mset_list_sort set_mset_mset)
  ultimately show ?thesis
    unfolding py_sorted_def
    by (auto elim!: sorted_wrt_mono_rel [rotated] simp: py_le_float_value)
qed

lemma py_sorted_descending:
  assumes "\<forall>x \<in> set xs. key x \<noteq> NaN"
  shows "sorted_wrt (\<lambda>a b. py_le (key b) (key a)) (py_sorted key True xs)"
proof -
  from assms have n: "\<forall>x \<in> set (rev xs). key x \<noteq> NaN" by simp
  have "sorted_wrt (\<lambda>a b. float_value (key a) \<le> float_value (key b))
          (list_sort key (rev xs))"
    using list_sort_sorted [OF n] by (simp add: sorted_wrt_map)
  moreover have "\<forall>x \<in> set (list_sort key (rev xs)). key x \<noteq> NaN"
    using n by (metis mset_list_sort set_mset_mset)
  ultimately have "sorted_wrt (\<lambda>a b. py_le (key a) (key b)) (list_sort key (rev xs))"
    by (auto elim!: sorted_wrt_mono_rel [rotated] simp: py_le_float_value)
  then show ?thesis
    by (simp add: py_sorted_def sorted_wrt_rev)
qed

section \<open>Properties of search\<close>

lemmas search_eval =
  search_def distance_func_def distance_functions_def sort_reverse_def filtered_out_def
  cosine_similarity_def euclidean_distance_def manhattan_distance_def np_dot_def np_norm_def
  np_sub_def py_slice_def py_sorted_def list_sort_def clamp_index_def result_score_def
  deref_def

subsection \<open>Slices\<close>

lemma set_py_slice: "set (py_slice xs i j) \<subseteq> set xs"
  unfolding py_slice_def Let_def
  by (meson set_take_subset set_drop_subset subset_trans)

lemma length_py_slice_prefix: "0 \<le> k \<Longrightarrow> int (length (py_slice xs 0 k)) \<le> k"
  by (simp add: py_slice_def clamp_index_def Let_def)

lemma py_slice_zero: "py_slice xs 0 0 = []"
  by (simp add: py_slice_def clamp_index_def Let_def)

lemma py_slice_negative: "k < 0 \<Longrightarrow> py_slice xs 0 k = take (length xs - nat (- k)) xs"
  by (auto simp add: py_slice_def clamp_index_def Let_def max_def
      intro!: arg_cong2 [where f = take])

lemma sorted_wrt_py_slice: "sorted_wrt R xs \<Longrightarrow> sorted_wrt R (py_slice xs i j)"
  unfolding py_slice_def Let_def
  by (intro sorted_wrt_take sorted_wrt_drop)

subsection \<open>The scoring loop\<close>

text \<open>
  Every scored candidate is a record of the store that passed the filter, with the score
  the scoring function gave it.
\<close>

lemma score_items_member:
  "score_items f q flt h items = Inr scores \<Longrightarrow> (key, score, md) \<in> set scores \<Longrightarrow>
   \<exists>vwm. (key, vwm) \<in> set items \<and> metadata vwm = md \<and> f q (vector vwm) = Inr score
         \<and> \<not> filtered_out flt (deref h md)"
proof (induction items arbitrary: scores)
  case Nil
  then show ?case by simp
next
  case (Cons item items)
  obtain k1 v1 where item: "item = (k1, v1)" by (cases item)
  show ?case
  proof (cases "filtered_out flt (deref h (metadata v1))")
    case True
    with Cons.prems item have "score_items f q flt h items = Inr scores" by simp
    from Cons.IH [OF this Cons.prems(2)] show ?thesis by auto
  next
    case False
    with Cons.prems(1) item obtain s1 others where
      s1: "f q (vector v1) = Inr s1" and others: "score_items f q flt h items = Inr others"
      and scores: "scores = (k1, s1, metadata v1) # others"
      by (auto split: sum.splits)
    show ?thesis
    proof (cases "(key, score, md) = (k1, s1, metadata v1)")
      case True
      with s1 False item show ?thesis by auto
    next
      case False
      with Cons.prems(2) scores have "(key, score, md) \<in> set others" by auto
      from Cons.IH [OF others this] show ?thesis by auto
    qed
  qed
qed

text \<open>The scored candidates are the records that pass the filter, in the store's order.\<close>

lemma score_items_keys:
  "score_items f q flt h items = Inr scores \<Longrightarrow>
   map (\<lambda>(key, score, md). (key, md)) scores
     = map (\<lambda>(key, vwm). (key, metadata vwm))
         (filter (\<lambda>(key, vwm). \<not> filtered_out flt (deref h (metadata vwm))) items)"
proof (induction items arbitrary: scores)
  case Nil
  then show ?case by simp
next
  case (Cons item items)
  obtain k1 v1 where item: "item = (k1, v1)" by (cases item)
  show ?case
  proof (cases "filtered_out flt (deref h (metadata v1))")
    case True
    with Cons item show ?thesis by simp
  next
    case False
    with Cons.prems item obtain s1 others where
      others: "score_items f q flt h items = Inr others"
      and scores: "scores = (k1, s1, metadata v1) # others"
      by (auto split: sum.splits)
    from Cons.IH [OF others] False item scores show ?thesis by simp
  qed
qed

text \<open>The loop returns when the scoring function returns on every record.\<close>

lemma score_items_returns:
  "\<forall>(key, vwm) \<in> set items. \<exists>s. f q (vector vwm) = Inr s \<Longrightarrow>
   \<exists>scores. score_items f q flt h items = Inr scores"
proof (induction items)
  case Nil
  then show ?case by simp
next
  case (Cons item items)
  obtain k1 v1 where item: "item = (k1, v1)" by (cases item)
  from Cons.prems item obtain s1 where s1: "f q (vector v1) = Inr s1" by auto
  from Cons obtain others where "score_items f q flt h items = Inr others" by auto
  with s1 item show ?case by simp
qed

text \<open>
  The named metrics return on vectors of the query's length, and only the cosine
  similarity can be nan.
\<close>

lemma manhattan_distance_returns:
  "length v = length q \<Longrightarrow> \<exists>s. manhattan_distance q v = Inr s"
  by (simp add: manhattan_distance_def np_sub_def)

lemma euclidean_distance_returns:
  "length v = length q \<Longrightarrow> \<exists>s. euclidean_distance q v = Inr s"
  by (simp add: euclidean_distance_def np_sub_def)

lemma cosine_similarity_returns:
  "length v = length q \<Longrightarrow> \<exists>s. cosine_similarity q v = Inr s"
  by (simp add: cosine_similarity_def np_dot_def Let_def)

lemma manhattan_distance_not_nan: "manhattan_distance q v \<noteq> Inr NaN"
  by (simp add: manhattan_distance_def split: sum.splits)


lemma search_Inr:
  "fst (search q k dm flt w) = Inr res \<Longrightarrow>
   \<exists>scores. score_items (distance_func dm) q flt (heap w) (vectors (vdb w)) = Inr scores
     \<and> res = py_slice (py_sorted result_score (sort_reverse dm) scores) 0 k"
  by (auto simp: search_def split: sum.splits)

lemma search_member:
  assumes "fst (search q k dm flt w) = Inr res" and "(key, score, md) \<in> set res"
  shows "\<exists>vwm. (key, vwm) \<in> set (vectors (vdb w)) \<and> metadata vwm = md
           \<and> distance_func dm q (vector vwm) = Inr score
           \<and> \<not> filtered_out flt (deref (heap w) md)"
proof -
  from search_Inr [OF assms(1)] obtain scores where
    sc: "score_items (distance_func dm) q flt (heap w) (vectors (vdb w)) = Inr scores"
    and res: "res = py_slice (py_sorted result_score (sort_reverse dm) scores) 0 k"
    by blast
  from assms(2) res have "(key, score, md) \<in> set scores"
    using set_py_slice set_py_sorted by fastforce
  from score_items_member [OF sc this] show ?thesis .
qed

text \<open>
  When no record scores nan, the results are in the order of the flag \<^verbatim>\<open>reverse\<close>:
  non-increasing when it is set, non-decreasing when it is not.
\<close>

lemma search_sorted:
  assumes "fst (search q k dm flt w) = Inr res"
    and "\<forall>(key, vwm) \<in> set (vectors (vdb w)). distance_func dm q (vector vwm) \<noteq> Inr NaN"
  shows "sorted_wrt (\<lambda>a b. if sort_reverse dm then py_le b a else py_le a b)
           (map result_score res)"
proof -
  from search_Inr [OF assms(1)] obtain scores where
    sc: "score_items (distance_func dm) q flt (heap w) (vectors (vdb w)) = Inr scores"
    and res: "res = py_slice (py_sorted result_score (sort_reverse dm) scores) 0 k"
    by blast
  have n: "\<forall>x \<in> set scores. result_score x \<noteq> NaN"
  proof
    fix x assume x: "x \<in> set scores"
    obtain key score md where xs: "x = (key, score, md)" by (cases x)
    from score_items_member [OF sc x [unfolded xs]] assms(2)
    have "score \<noteq> NaN" by fastforce
    with xs show "result_score x \<noteq> NaN" by (simp add: result_score_def)
  qed
  show ?thesis
  proof (cases "sort_reverse dm")
    case True
    with py_sorted_descending [OF n] show ?thesis
      unfolding res sorted_wrt_map by (simp add: sorted_wrt_py_slice)
  next
    case False
    with py_sorted_ascending [OF n] show ?thesis
      unfolding res sorted_wrt_map by (simp add: sorted_wrt_py_slice)
  qed
qed


subsection \<open>The order of the results\<close>




text \<open>
  Claim C1, as stated: with a scoring function of the caller's, \<^verbatim>\<open>search\<close> sorts the
  scores descending, as for the name \<^verbatim>\<open>"cosine"\<close>. It fails: passed as a function,
  \<^verbatim>\<open>cosine_similarity\<close> itself ranks the record of similarity 0 before the record of
  similarity 1, the reverse of what the name \<^verbatim>\<open>"cosine"\<close> gives on the same store.
\<close>

theorem search_callable_counterexample:
  "fst (search [1, 0] 2 (DMCallable cosine_similarity) None two_chunks)
     = Inr [(''chunk_1'', Float 0, 1), (''chunk_0'', Float 1, 0)]
   \<and> \<not> sorted_wrt (\<lambda>a b. py_le b a)
         (map result_score [(''chunk_1'', Float 0, 1), (''chunk_0'', Float 1, 0)])
   \<and> fst (search [1, 0] 2 (DMName ''cosine'') None two_chunks)
     = Inr [(''chunk_0'', Float 1, 0), (''chunk_1'', Float 0, 1)]"
  by (simp add: search_eval two_chunks_def)

text \<open>
  Claim C1, amended. With a scoring function of the caller's, whenever \<^verbatim>\<open>search\<close>
  returns: every result is a record of the store with the score that function gave it,
  and when the function gives no record the score nan, the scores of the results are
  non-decreasing (lower score first, the order of the names \<^verbatim>\<open>"euclidean"\<close> and
  \<^verbatim>\<open>"manhattan"\<close>).
\<close>

theorem search_callable_ascending:
  assumes "fst (search q k (DMCallable f) flt w) = Inr res"
  shows "((\<forall>(key, vwm) \<in> set (vectors (vdb w)). f q (vector vwm) \<noteq> Inr NaN) \<longrightarrow>
            sorted_wrt py_le (map result_score res))
       \<and> (\<forall>(key, score, md) \<in> set res.
            \<exists>vwm. (key, vwm) \<in> set (vectors (vdb w)) \<and> metadata vwm = md
                  \<and> f q (vector vwm) = Inr score)"
proof -
  have f: "distance_func (DMCallable f) = f" and r: "\<not> sort_reverse (DMCallable f)"
    by (simp_all add: distance_func_def sort_reverse_def)
  have "sorted_wrt py_le (map result_score res)"
    if "\<forall>(key, vwm) \<in> set (vectors (vdb w)). f q (vector vwm) \<noteq> Inr NaN"
    using search_sorted [OF assms] that r unfolding f by simp
  moreover have "\<exists>vwm. (key, vwm) \<in> set (vectors (vdb w)) \<and> metadata vwm = md
                  \<and> f q (vector vwm) = Inr score"
    if "(key, score, md) \<in> set res" for key score md
    using search_member [OF assms that] by (auto simp: f)
  ultimately show ?thesis by auto
qed

theorem search_callable_ascending_witness:
  "fst (search [1, 0] 2 (DMCallable manhattan_distance) None two_chunks)
     = Inr [(''chunk_0'', Float 0, 0), (''chunk_1'', Float 2, 1)]
   \<and> sorted_wrt py_le
       (map result_score [(''chunk_0'', Float 0, 0), (''chunk_1'', Float 2, 1)])"
proof -
  have a: "fst (search [1, 0] 2 (DMCallable manhattan_distance) None two_chunks)
     = Inr [(''chunk_0'', Float 0, 0), (''chunk_1'', Float 2, 1)]"
    by (simp add: search_eval two_chunks_def)
  have n: "\<forall>(key, vwm) \<in> set (vectors (vdb two_chunks)).
             manhattan_distance [1, 0] (vector vwm) \<noteq> Inr NaN"
    by (simp add: manhattan_distance_not_nan)
  show ?thesis using a n search_callable_ascending [OF a] by simp
qed

text \<open>
  Claim C2, at a failing input. A name that is no metric's, \<^verbatim>\<open>"foo"\<close>, does not raise
  and is scored by the cosine similarity, but the results are sorted ascending: on the
  store of two records, with \<open>k = 1\<close>, the search returns the record of similarity 0,
  where the name \<^verbatim>\<open>"cosine"\<close> returns the record of similarity 1.
\<close>

theorem search_unknown_metric_differs:
  "fst (search [1, 0] 1 (DMName ''foo'') None two_chunks) = Inr [(''chunk_1'', Float 0, 1)]
   \<and> fst (search [1, 0] 1 (DMName ''cosine'') None two_chunks)
       = Inr [(''chunk_0'', Float 1, 0)]"
  by (simp add: search_eval two_chunks_def)

subsection \<open>The number of results and the filter\<close>

text \<open>
  Claim C5, as stated: \<^verbatim>\<open>search\<close> returns at most \<open>k\<close> results. It fails for a negative
  \<open>k\<close>: with \<open>k = -1\<close> the search returns one result, without a filter on the store
  of two records and under the filter \<^verbatim>\<open>"txt"\<close> on the store of three.
\<close>

theorem search_negative_k_counterexample:
  "fst (search [1, 0] (- 1) DMNone None two_chunks) = Inr [(''chunk_0'', Float 1, 0)]
   \<and> fst (search [1, 0] (- 1) (DMName ''manhattan'') (Some ''txt'') typed_chunks)
       = Inr [(''chunk_0'', Float 0, 0)]
   \<and> \<not> int (length [(''chunk_0'', Float 1, 0 :: addr)]) \<le> - 1"
  by (simp add: search_eval two_chunks_def typed_chunks_def)

text \<open>
  Claim C5, amended. Whenever \<^verbatim>\<open>search\<close> returns: for \<open>k \<ge> 0\<close> it returns at most \<open>k\<close>
  results; for every \<open>k\<close>, every result is a record of the store, and under a non-empty
  file-type filter the metadata of every result has a \<^verbatim>\<open>file_type\<close> equal to the filter.
\<close>

theorem search_respects_k_and_filter:
  assumes "fst (search q k dm flt w) = Inr res"
  shows "(0 \<le> k \<longrightarrow> int (length res) \<le> k)
       \<and> (\<forall>(key, score, md) \<in> set res.
            \<exists>vwm. (key, vwm) \<in> set (vectors (vdb w)) \<and> metadata vwm = md)
       \<and> (\<forall>ft. flt = Some ft \<and> ft \<noteq> [] \<longrightarrow>
            (\<forall>(key, score, md) \<in> set res.
               map_of (deref (heap w) md) ''file_type'' = Some (PyStr ft)))"
proof -
  from search_Inr [OF assms] obtain scores where
    res: "res = py_slice (py_sorted result_score (sort_reverse dm) scores) 0 k"
    by blast
  have len: "0 \<le> k \<longrightarrow> int (length res) \<le> k"
    unfolding res by (simp add: length_py_slice_prefix)
  have mem: "\<exists>vwm. (key, vwm) \<in> set (vectors (vdb w)) \<and> metadata vwm = md"
    if "(key, score, md) \<in> set res" for key score md
    using search_member [OF assms that] by blast
  have ft: "map_of (deref (heap w) md) ''file_type'' = Some (PyStr ft)"
    if "(key, score, md) \<in> set res" and "flt = Some ft" and "ft \<noteq> []" for key score md ft
    using search_member [OF assms that(1)] that(2,3) by (auto simp: filtered_out_def)
  show ?thesis using len mem ft by blast
qed

theorem search_respects_k_and_filter_witness:
  "fst (search [1, 0] 1 (DMName ''manhattan'') (Some ''txt'') typed_chunks)
     = Inr [(''chunk_0'', Float 0, 0)]
   \<and> int (length [(''chunk_0'', Float 0, 0 :: addr)]) \<le> 1
   \<and> map_of (deref (heap typed_chunks) 0) ''file_type'' = Some (PyStr ''txt'')"
proof -
  have a: "fst (search [1, 0] 1 (DMName ''manhattan'') (Some ''txt'') typed_chunks)
     = Inr [(''chunk_0'', Float 0, 0)]"
    by (simp add: search_eval typed_chunks_def)
  show ?thesis using a search_respects_k_and_filter [OF a] by simp
qed

subsection \<open>Zero and negative \<open>k\<close>\<close>

text \<open>
  Claim C10, as stated: for every store and query vector, \<^verbatim>\<open>search\<close> with \<open>k = 0\<close> or a
  negative \<open>k\<close> does not raise. It fails for a query vector of another dimension than
  the stored ones: every candidate is scored before the list is cut, and \<^verbatim>\<open>np.dot\<close>
  raises.
\<close>

theorem search_zero_k_counterexample:
  "fst (search [1, 0, 0] 0 DMNone None two_chunks) = Inl (ValueError ''shapes not aligned'')
   \<and> fst (search [1, 0, 0] (- 1) DMNone None two_chunks)
       = Inl (ValueError ''shapes not aligned'')"
  by (simp add: search_eval two_chunks_def)

lemma py_slice_all: "length xs \<le> n \<Longrightarrow> py_slice xs 0 (int n) = xs"
  by (simp add: py_slice_def clamp_index_def Let_def)

text \<open>
  Claim C10, amended. When the scoring function returns on every record of the store,
  \<^verbatim>\<open>search\<close> returns for \<open>k = 0\<close> and for every negative \<open>k\<close>. For \<open>k = 0\<close> it returns
  the empty list. For \<open>k < 0\<close> it returns the full ranking without its last \<open>|k|\<close>
  entries, where the full ranking is what \<^verbatim>\<open>search\<close> returns when \<open>k\<close> is the size of
  the store: the candidates (the records that pass the filter), each once, in the order
  of the flag \<^verbatim>\<open>reverse\<close> when no score is nan. So \<open>k = -1\<close> on \<open>n\<close> candidates yields
  \<open>n - 1\<close> results.
\<close>

theorem search_zero_and_negative_k:
  assumes "\<forall>(key, vwm) \<in> set (vectors (vdb w)). \<exists>s. distance_func dm q (vector vwm) = Inr s"
  shows "fst (search q 0 dm flt w) = Inr []
       \<and> (\<exists>full.
             fst (search q (int (length (vectors (vdb w)))) dm flt w) = Inr full
           \<and> mset (map (\<lambda>(key, score, md). (key, md)) full)
               = mset (map (\<lambda>(key, vwm). (key, metadata vwm)) (candidates flt w))
           \<and> ((\<forall>(key, vwm) \<in> set (vectors (vdb w)).
                  distance_func dm q (vector vwm) \<noteq> Inr NaN) \<longrightarrow>
                sorted_wrt (\<lambda>a b. if sort_reverse dm then py_le b a else py_le a b)
                  (map result_score full))
           \<and> (k < 0 \<longrightarrow>
                fst (search q k dm flt w) = Inr (take (length full - nat (- k)) full))
           \<and> (\<exists>res. fst (search q (- 1) dm flt w) = Inr res
                  \<and> length res = length (candidates flt w) - 1))"
proof -
  from score_items_returns [where f = "distance_func dm" and q = q, OF assms]
  obtain scores where
    c: "score_items (distance_func dm) q flt (heap w) (vectors (vdb w)) = Inr scores"
    by blast
  define full where "full = py_sorted result_score (sort_reverse dm) scores"
  have keys: "map (\<lambda>(key, score, md). (key, md)) scores
                = map (\<lambda>(key, vwm). (key, metadata vwm)) (candidates flt w)"
    using score_items_keys [OF c] by (simp add: candidates_def)
  then have "length scores = length (candidates flt w)"
    by (metis length_map)
  then have len: "length full = length (candidates flt w)"
    by (simp add: full_def length_py_sorted)
  have "length (candidates flt w) \<le> length (vectors (vdb w))"
    by (simp add: candidates_def)
  with len have whole: "py_slice full 0 (int (length (vectors (vdb w)))) = full"
    by (intro py_slice_all) simp
  have zero: "fst (search q 0 dm flt w) = Inr []"
    using c by (simp add: search_def py_slice_zero)
  have all: "fst (search q (int (length (vectors (vdb w)))) dm flt w) = Inr full"
    using c whole by (simp add: search_def full_def)
  have "mset (map (\<lambda>(key, score, md). (key, md)) full)
          = mset (map (\<lambda>(key, score, md). (key, md)) scores)"
    by (simp add: full_def mset_py_sorted)
  with keys have perm: "mset (map (\<lambda>(key, score, md). (key, md)) full)
               = mset (map (\<lambda>(key, vwm). (key, metadata vwm)) (candidates flt w))"
    by simp
  have order: "sorted_wrt (\<lambda>a b. if sort_reverse dm then py_le b a else py_le a b)
                  (map result_score full)"
    if "\<forall>(key, vwm) \<in> set (vectors (vdb w)). distance_func dm q (vector vwm) \<noteq> Inr NaN"
    by (rule search_sorted [OF all that])
  have neg: "fst (search q j dm flt w) = Inr (take (length full - nat (- j)) full)"
    if "j < 0" for j
    using c that by (simp add: search_def py_slice_negative full_def)
  have "length (take (length full - nat (- (- 1 :: int))) full) = length (candidates flt w) - 1"
    by (simp add: len)
  with neg [of "- 1"] have one: "\<exists>res. fst (search q (- 1) dm flt w) = Inr res
                  \<and> length res = length (candidates flt w) - 1"
    by simp
  show ?thesis
    using zero all perm order neg [of k] one by blast
qed

theorem search_zero_and_negative_k_witness:
  "fst (search [1, 0] 0 DMNone None two_chunks) = Inr []
   \<and> fst (search [1, 0] (- 1) DMNone None two_chunks) = Inr [(''chunk_0'', Float 1, 0)]"
proof -
  have h: "\<forall>(key, vwm) \<in> set (vectors (vdb two_chunks)).
             \<exists>s. distance_func DMNone [1, 0] (vector vwm) = Inr s"
    by (simp add: search_eval two_chunks_def)
  have n: "int (length (vectors (vdb two_chunks))) = 2"
    by (simp add: two_chunks_def)
  have a: "fst (search [1, 0] 2 DMNone None two_chunks)
             = Inr [(''chunk_0'', Float 1, 0), (''chunk_1'', Float 0, 1)]"
    by (simp add: search_eval two_chunks_def)
  from search_zero_and_negative_k [OF h, of None "- 1"] obtain full where
    z: "fst (search [1, 0] 0 DMNone None two_chunks) = Inr []"
    and f: "fst (search [1, 0] (int (length (vectors (vdb two_chunks)))) DMNone None two_chunks)
              = Inr full"
    and m: "fst (search [1, 0] (- 1) DMNone None two_chunks)
              = Inr (take (length full - nat (- (- 1 :: int))) full)"
    by auto
  from f a have "full = [(''chunk_0'', Float 1, 0), (''chunk_1'', Float 0, 1)]"
    unfolding n by simp
  with z m show ?thesis by simp
qed

subsection \<open>The read operations\<close>

text \<open>
  Claim C9. \<^verbatim>\<open>search\<close>, \<^verbatim>\<open>retrieve_from_key\<close> and \<^verbatim>\<open>get_database_stats\<close> return the
  state they were called in: the records, the mapping from texts to keys, the counter
  and the metadata dictionaries are unchanged, whether the search raises or returns and
  whether the key looked up is present or absent.
\<close>

theorem read_operations_frame:
  "snd (search q k dm flt w) = w
   \<and> snd (retrieve_from_key key w) = w
   \<and> snd (get_database_stats w) = w"
  by (simp add: search_def retrieve_from_key_def get_database_stats_def
      split: sum.splits option.splits)

theorem read_operations_frame_witness:
  "retrieve_from_key ''chunk_9'' two_chunks = (None, two_chunks)
   \<and> snd (search [1, 0] 1 DMNone None two_chunks) = two_chunks
   \<and> snd (get_database_stats two_chunks) = two_chunks"
proof -
  have "fst (retrieve_from_key ''chunk_9'' two_chunks) = None"
    by (simp add: retrieve_from_key_def two_chunks_def)
  then show ?thesis
    using read_operations_frame [of "[1, 0]" 1 DMNone None two_chunks "''chunk_9''"]
    by (simp add: prod_eq_iff)
qed


section \<open>Properties of ingestion\<close>

lemmas abuild_eval =
  abuild_from_list_def abuild_step_def chunk_metadata_for_def chunk_key_of_def
  insert_vector_def alloc_def heap_store_def deref_def VectorDatabase_def str_nat.simps
  digit_char_def to_dict_def opt_val_def Let_def

subsection \<open>Keys\<close>

text \<open>Distinct counters print as distinct keys.\<close>

lemma digit_char_inj: "a < 10 \<Longrightarrow> b < 10 \<Longrightarrow> digit_char a = digit_char b \<Longrightarrow> a = b"
proof -
  assume a: "a < 10" and b: "b < 10" and eq: "digit_char a = digit_char b"
  have d: "distinct ''0123456789''" by simp
  from a b eq d show ?thesis
    unfolding digit_char_def by (simp add: nth_eq_iff_index_eq)
qed

lemma str_nat_nonempty: "str_nat n \<noteq> []"
  by (subst str_nat.simps) simp

lemma str_nat_inj: "str_nat n = str_nat m \<Longrightarrow> n = m"
proof (induction n arbitrary: m rule: str_nat.induct)
  case (1 n)
  show ?case
  proof (cases "n < 10")
    case True
    then have n: "str_nat n = [digit_char n]" by (subst str_nat.simps) simp
    show ?thesis
    proof (cases "m < 10")
      case True
      then have "str_nat m = [digit_char m]" by (subst str_nat.simps) simp
      with n "1.prems" \<open>n < 10\<close> True show ?thesis by (auto dest: digit_char_inj)
    next
      case False
      then have "str_nat m = str_nat (m div 10) @ [digit_char (m mod 10)]"
        by (subst str_nat.simps) simp
      with n "1.prems" have "str_nat (m div 10) = []" by simp
      with str_nat_nonempty show ?thesis by blast
    qed
  next
    case False
    then have n: "str_nat n = str_nat (n div 10) @ [digit_char (n mod 10)]"
      by (subst str_nat.simps) simp
    show ?thesis
    proof (cases "m < 10")
      case True
      then have "str_nat m = [digit_char m]" by (subst str_nat.simps) simp
      with n "1.prems" have "str_nat (n div 10) = []" by simp
      with str_nat_nonempty show ?thesis by blast
    next
      case m: False
      then have "str_nat m = str_nat (m div 10) @ [digit_char (m mod 10)]"
        by (subst str_nat.simps) simp
      with n "1.prems" have eq: "str_nat (n div 10) = str_nat (m div 10)"
        and dg: "digit_char (n mod 10) = digit_char (m mod 10)" by simp_all
      from "1.IH" [OF False eq] have "n div 10 = m div 10" .
      moreover have "n mod 10 = m mod 10"
        by (rule digit_char_inj [OF _ _ dg]) simp_all
      ultimately show ?thesis by (metis div_mult_mod_eq)
    qed
  qed
qed

lemma chunk_key_of_inj: "chunk_key_of n = chunk_key_of m \<Longrightarrow> n = m"
  by (simp add: chunk_key_of_def str_nat_inj)

subsection \<open>One iteration\<close>

lemma update_fresh: "k \<notin> set (map fst al) \<Longrightarrow> AList.update k v al = al @ [(k, v)]"
  by (induction al) auto

lemma chunk_metadata_for_document:
  "i < length entries \<Longrightarrow> entries ! i = DocumentMetadata d \<Longrightarrow>
   chunk_metadata_for (Some entries) i h
     = (length h, h @ [AList.update ''chunk_index'' (PyInt (int i)) (to_dict d)])"
  by (auto simp: chunk_metadata_for_def alloc_def heap_store_def deref_def nth_append)

lemma chunk_metadata_for_none:
  "chunk_metadata_for None i h = (length h, h @ [[]])"
  by (simp add: chunk_metadata_for_def alloc_def)

text \<open>One iteration on a store whose keys were all drawn from the counter.\<close>

lemma abuild_step_fresh:
  assumes "keys_inv w" and "chunk_metadata_for ml i (heap w) = (a, h1)"
  shows "abuild_step ml i tx emb w
     = \<lparr>heap = h1,
        vdb = \<lparr>vectors = vectors (vdb w)
                  @ [(chunk_key_of (chunk_counter (vdb w)), \<lparr>vector = emb, metadata = a\<rparr>)],
               text_to_key = AList.update tx (chunk_key_of (chunk_counter (vdb w)))
                               (text_to_key (vdb w)),
               chunk_counter = chunk_counter (vdb w) + 1\<rparr>\<rparr>"
proof -
  have "chunk_key_of (chunk_counter (vdb w)) \<notin> set (map fst (vectors (vdb w)))"
  proof
    assume "chunk_key_of (chunk_counter (vdb w)) \<in> set (map fst (vectors (vdb w)))"
    with assms(1) obtain n where "n < chunk_counter (vdb w)"
      and "chunk_key_of (chunk_counter (vdb w)) = chunk_key_of n"
      unfolding keys_inv_def keys_of_def by blast
    then show False by (auto dest: chunk_key_of_inj)
  qed
  then show ?thesis
    using assms(2) by (simp add: abuild_step_def insert_vector_def Let_def update_fresh)
qed

lemma abuild_step_keys:
  assumes "keys_inv w"
  shows "keys_of (abuild_step ml i tx emb w)
           = keys_of w @ [chunk_key_of (chunk_counter (vdb w))]"
    and "chunk_counter (vdb (abuild_step ml i tx emb w)) = chunk_counter (vdb w) + 1"
    and "keys_inv (abuild_step ml i tx emb w)"
proof -
  obtain a h1 where m: "chunk_metadata_for ml i (heap w) = (a, h1)"
    by (cases "chunk_metadata_for ml i (heap w)")
  note step = abuild_step_fresh [OF assms m, of tx emb]
  show k: "keys_of (abuild_step ml i tx emb w)
           = keys_of w @ [chunk_key_of (chunk_counter (vdb w))]"
    by (simp add: step keys_of_def)
  show c: "chunk_counter (vdb (abuild_step ml i tx emb w)) = chunk_counter (vdb w) + 1"
    by (simp add: step)
  have fresh: "chunk_key_of (chunk_counter (vdb w)) \<notin> set (keys_of w)"
    using assms by (auto simp: keys_inv_def dest: chunk_key_of_inj)
  have "\<exists>n < chunk_counter (vdb w) + 1. key = chunk_key_of n"
    if "key \<in> set (keys_of w @ [chunk_key_of (chunk_counter (vdb w))])" for key
    using that assms by (auto simp: keys_inv_def intro: less_SucI)
  with fresh assms show "keys_inv (abuild_step ml i tx emb w)"
    unfolding keys_inv_def k c by auto
qed

subsection \<open>The loop\<close>

text \<open>
  Whatever the metadata list, a call appends one key per pair, printed from consecutive
  counters, and keeps the keys distinct.
\<close>

lemma abuild_loop_keys:
  "keys_inv w \<Longrightarrow>
   keys_of (abuild_loop ml i pairs w)
     = keys_of w
       @ map chunk_key_of [chunk_counter (vdb w) ..< chunk_counter (vdb w) + length pairs]
   \<and> chunk_counter (vdb (abuild_loop ml i pairs w)) = chunk_counter (vdb w) + length pairs
   \<and> keys_inv (abuild_loop ml i pairs w)"
proof (induction pairs arbitrary: i w)
  case Nil
  then show ?case by simp
next
  case (Cons pair pairs)
  obtain tx emb where pair: "pair = (tx, emb)" by (cases pair)
  let ?w1 = "abuild_step ml i tx emb w"
  note s = abuild_step_keys [OF Cons.prems, of ml i tx emb]
  from Cons.IH [OF s(3), of "i + 1"] s(1,2) pair show ?case
    by (simp add: upt_conv_Cons del: upt_Suc)
qed

text \<open>
  Entries with a \<^verbatim>\<open>to_dict\<close> method get a fresh dictionary each, so the index stamped
  on a record stays.
\<close>

lemma abuild_step_document:
  assumes "keys_inv w" and "refs_inv w"
    and "i < length entries" and "entries ! i = DocumentMetadata d"
  shows "chunk_indices (abuild_step (Some entries) i tx emb w)
           = chunk_indices w @ [Some (PyInt (int i))]"
    and "refs_inv (abuild_step (Some entries) i tx emb w)"
proof -
  let ?x = "AList.update ''chunk_index'' (PyInt (int i)) (to_dict d)"
  note step = abuild_step_fresh [OF assms(1) chunk_metadata_for_document [OF assms(3,4)],
      of tx emb]
  have old: "deref (heap w @ [?x]) (metadata vwm) = deref (heap w) (metadata vwm)"
    if "(key, vwm) \<in> set (vectors (vdb w))" for key vwm
    using that assms(2) by (auto simp: refs_inv_def deref_def nth_append)
  have new: "map_of (deref (heap w @ [?x]) (length (heap w))) ''chunk_index''
               = Some (PyInt (int i))"
    by (simp add: deref_def update_conv')
  show "chunk_indices (abuild_step (Some entries) i tx emb w)
           = chunk_indices w @ [Some (PyInt (int i))]"
    using old new by (auto simp: step chunk_indices_def)
  show "refs_inv (abuild_step (Some entries) i tx emb w)"
    using assms(2) by (auto simp: step refs_inv_def intro: less_SucI)
qed

lemma abuild_loop_document:
  "keys_inv w \<Longrightarrow> refs_inv w \<Longrightarrow> \<forall>e \<in> set entries. \<exists>d. e = DocumentMetadata d \<Longrightarrow>
   i + length pairs \<le> length entries \<Longrightarrow>
   chunk_indices (abuild_loop (Some entries) i pairs w)
     = chunk_indices w @ map (\<lambda>j. Some (PyInt (int j))) [i ..< i + length pairs]"
proof (induction pairs arbitrary: i w)
  case Nil
  then show ?case by simp
next
  case (Cons pair pairs)
  obtain tx emb where pair: "pair = (tx, emb)" by (cases pair)
  from Cons.prems(4) have i: "i < length entries" by simp
  with Cons.prems(3) obtain d where d: "entries ! i = DocumentMetadata d"
    using nth_mem by blast
  note k = abuild_step_keys [OF Cons.prems(1), of "Some entries" i tx emb]
  note s = abuild_step_document [OF Cons.prems(1,2) i d, of tx emb]
  from Cons.prems(4) have "i + 1 + length pairs \<le> length entries" by simp
  from Cons.IH [OF k(3) s(2) Cons.prems(3) this] s(1) pair show ?case
    by (simp add: upt_conv_Cons del: upt_Suc)
qed

text \<open>
  The batched ingestion with a parallel list of \<^verbatim>\<open>DocumentMetadata\<close> objects, as the
  pipeline calls it: one new key per text, all keys of the store distinct, and the new
  records stamped \<open>0, \<dots>, N - 1\<close> in input order, whatever earlier calls stamped.
\<close>

lemma abuild_from_list_document_metadata:
  assumes "keys_inv w" and "refs_inv w"
    and "async_get_embeddings texts = Inr embeddings"
    and "length embeddings = length texts" and "length entries = length texts"
    and "\<forall>e \<in> set entries. \<exists>d. e = DocumentMetadata d"
    and "abuild_from_list async_get_embeddings texts (Some entries) w = (r, w1)"
  shows "r = Inr ()"
    and "keys_of w1 = keys_of w
           @ map chunk_key_of [chunk_counter (vdb w) ..< chunk_counter (vdb w) + length texts]"
    and "distinct (keys_of w1)" and "keys_inv w1"
    and "chunk_indices w1
           = chunk_indices w @ map (\<lambda>j. Some (PyInt (int j))) [0 ..< length texts]"
proof -
  let ?pairs = "zip texts embeddings"
  have len: "length ?pairs = length texts" using assms(4) by simp
  from assms(3,7) have w1: "w1 = abuild_loop (Some entries) 0 ?pairs w" and r: "r = Inr ()"
    by (simp_all add: abuild_from_list_def)
  show "r = Inr ()" by (rule r)
  from abuild_loop_keys [OF assms(1), of "Some entries" 0 ?pairs]
  show "keys_of w1 = keys_of w
           @ map chunk_key_of [chunk_counter (vdb w) ..< chunk_counter (vdb w) + length texts]"
    and inv: "keys_inv w1"
    unfolding w1 len by simp_all
  from inv show "distinct (keys_of w1)" by (simp add: keys_inv_def)
  from abuild_loop_document [OF assms(1,2,6), of 0 ?pairs] assms(5)
  show "chunk_indices w1
           = chunk_indices w @ map (\<lambda>j. Some (PyInt (int j))) [0 ..< length texts]"
    unfolding w1 len by simp
qed

lemma empty_store_inv:
  "keys_inv \<lparr>heap = h, vdb = VectorDatabase\<rparr>"
  "refs_inv \<lparr>heap = h, vdb = VectorDatabase\<rparr>"
  by (simp_all add: keys_inv_def refs_inv_def keys_of_def VectorDatabase_def)

text \<open>Two texts with the metadata of one file, on an empty store.\<close>

lemma abuild_document_example:
  "chunk_indices (snd (abuild_from_list unit_embeddings [''a'', ''b'']
      (Some [DocumentMetadata a_txt, DocumentMetadata a_txt]) shared_dict))
     = [Some (PyInt 0), Some (PyInt 1)]
   \<and> keys_of (snd (abuild_from_list unit_embeddings [''a'', ''b'']
      (Some [DocumentMetadata a_txt, DocumentMetadata a_txt]) shared_dict))
     = [''chunk_0'', ''chunk_1'']"
proof -
  obtain r w1 where run: "abuild_from_list unit_embeddings [''a'', ''b'']
      (Some [DocumentMetadata a_txt, DocumentMetadata a_txt]) shared_dict = (r, w1)"
    by (cases "abuild_from_list unit_embeddings [''a'', ''b'']
      (Some [DocumentMetadata a_txt, DocumentMetadata a_txt]) shared_dict")
  have inv: "keys_inv shared_dict" "refs_inv shared_dict"
    unfolding shared_dict_def by (rule empty_store_inv)+
  have emb: "unit_embeddings [''a'', ''b''] = Inr [[1, 0], [1, 0]]"
    by (simp add: unit_embeddings_def)
  note facts = abuild_from_list_document_metadata [OF inv emb _ _ _ run]
  have "chunk_indices w1 = chunk_indices shared_dict @ [Some (PyInt 0), Some (PyInt 1)]"
    using facts(5) by (simp add: upt_rec)
  moreover have "keys_of w1 = keys_of shared_dict @ [chunk_key_of 0, chunk_key_of 1]"
    using facts(2) by (simp add: shared_dict_def VectorDatabase_def upt_rec)
  ultimately show ?thesis
    unfolding run
    by (simp add: chunk_indices_def keys_of_def shared_dict_def VectorDatabase_def
        chunk_key_of_def str_nat.simps digit_char_def)
qed

subsection \<open>A shared dictionary\<close>

text \<open>
  Claim C4, at a failing input. The caller builds the parallel metadata list from one
  dictionary, \<^verbatim>\<open>abuild_from_list(["a", "b"], [md, md])\<close>. The two records get the
  distinct keys \<^verbatim>\<open>chunk_0\<close> and \<^verbatim>\<open>chunk_1\<close>, but both hold the dictionary \<open>md\<close> itself,
  whose \<^verbatim>\<open>chunk_index\<close> the second iteration has overwritten: the record of the first
  text carries \<^verbatim>\<open>chunk_index\<close> 1, not 0.
\<close>

theorem abuild_shared_dict_chunk_index:
  "snd (abuild_from_list unit_embeddings [''a'', ''b'']
          (Some [DictObject 0, DictObject 0]) shared_dict)
     = \<lparr>heap = [[(''file_type'', PyStr ''txt''), (''chunk_index'', PyInt 1)]],
        vdb = \<lparr>vectors = [(''chunk_0'', \<lparr>vector = [1, 0], metadata = 0\<rparr>),
                          (''chunk_1'', \<lparr>vector = [1, 0], metadata = 0\<rparr>)],
               text_to_key = [(''a'', ''chunk_0''), (''b'', ''chunk_1'')],
               chunk_counter = 2\<rparr>\<rparr>"
  by (simp add: abuild_eval shared_dict_def unit_embeddings_def)


section \<open>Properties of query\<close>

lemma actual_distance_metric_stats:
  "actual_distance_metric metric (p\<lparr>stats := s\<rparr>) = actual_distance_metric metric p"
  by (simp add: actual_distance_metric_def split: option.splits)

lemma query_body_stats:
  "query_body env uq k metric style incl flt (p\<lparr>stats := s\<rparr>) w
     = query_body env uq k metric style incl flt p w"
  by (simp add: query_body_def actual_distance_metric_stats)

text \<open>The pipeline after a query: one counter is one higher, nothing else differs.\<close>

lemma query_pipeline:
  "fst (snd (query env uq k metric style incl flt p w))
     = p\<lparr>stats := (stats p)\<lparr>queries_processed := queries_processed (stats p) + 1\<rparr>\<rparr>"
  by (simp add: query_def Let_def split: prod.splits sum.splits)

lemma query_catches:
  "fst (query_body env uq k metric style incl flt p w) = Inl e \<Longrightarrow>
   fst (query env uq k metric style incl flt p w) = Inr (QueryFailure (str_error e))"
  by (cases "query_body env uq k metric style incl flt p w")
     (simp add: query_def Let_def query_body_stats)

lemma query_returns:
  "\<exists>result. fst (query env uq k metric style incl flt p w) = Inr result"
  by (simp add: query_def Let_def split: prod.splits sum.splits)

text \<open>The three places where the \<^verbatim>\<open>try\<close> block can raise.\<close>

lemma query_body_embedding_raises:
  "get_embedding env uq = Inl e \<Longrightarrow>
   fst (query_body env uq k metric style incl flt p w) = Inl e"
  by (simp add: query_body_def search_by_text_def)

lemma query_body_search_raises:
  "get_embedding env uq = Inr qv \<Longrightarrow>
   fst (search qv k (DMName (actual_distance_metric metric p)) flt w) = Inl e \<Longrightarrow>
   fst (query_body env uq k metric style incl flt p w) = Inl e"
  by (cases "search qv k (DMName (actual_distance_metric metric p)) flt w")
     (simp add: query_body_def search_by_text_def)

lemma query_body_chat_raises:
  assumes "get_embedding env uq = Inr qv"
    and "fst (search qv k (DMName (actual_distance_metric metric p)) flt w) = Inr res"
    and "chat_run env
           [system_message style,
            user_message
              (join [newline, newline]
                 (map (\<lambda>r. text_for_key (text_to_key (vdb w)) (fst r)) res)) uq] 0
         = Inl e"
  shows "fst (query_body env uq k metric style incl flt p w) = Inl e"
proof -
  have s: "search qv k (DMName (actual_distance_metric metric p)) flt w = (Inr res, w)"
    using assms(2) by (auto simp: search_def split: sum.splits)
  have texts: "fst \<circ> (\<lambda>(key, y). (text_for_key (text_to_key (vdb w)) key, y))
                 = (\<lambda>r :: search_result. text_for_key (text_to_key (vdb w)) (fst r))"
    by (auto simp: fun_eq_iff)
  show ?thesis
    using assms(1,3) s
    by (simp add: query_body_def search_by_text_def Let_def texts)
qed

text \<open>
  Claim C7. For every pipeline, state and call of \<^verbatim>\<open>query\<close>: the pipeline afterwards
  is the pipeline before with \<^verbatim>\<open>queries_processed\<close> one higher, whether the call fails
  or not; \<^verbatim>\<open>query\<close> returns a result, no exception leaves it; and when the embedding of
  the query raises \<open>e\<close>, or the search on the embedded query does, or the chat model
  does on the two messages built from the texts of the search results, the result is
  the failure record with the message of \<open>e\<close>.
\<close>

theorem query_counts_and_catches:
  "fst (snd (query env uq k metric style incl flt p w))
     = p\<lparr>stats := (stats p)\<lparr>queries_processed := queries_processed (stats p) + 1\<rparr>\<rparr>
   \<and> (\<exists>result. fst (query env uq k metric style incl flt p w) = Inr result)
   \<and> (get_embedding env uq = Inl e \<longrightarrow>
        fst (query env uq k metric style incl flt p w) = Inr (QueryFailure (str_error e)))
   \<and> (get_embedding env uq = Inr qv
        \<and> fst (search qv k (DMName (actual_distance_metric metric p)) flt w) = Inl e \<longrightarrow>
        fst (query env uq k metric style incl flt p w) = Inr (QueryFailure (str_error e)))
   \<and> (get_embedding env uq = Inr qv
        \<and> fst (search qv k (DMName (actual_distance_metric metric p)) flt w) = Inr res
        \<and> chat_run env
             [system_message style,
              user_message
                (join [newline, newline]
                   (map (\<lambda>r. text_for_key (text_to_key (vdb w)) (fst r)) res)) uq] 0
           = Inl e \<longrightarrow>
        fst (query env uq k metric style incl flt p w) = Inr (QueryFailure (str_error e)))"
proof -
  let ?q = "query env uq k metric style incl flt p w"
  let ?fail = "fst ?q = Inr (QueryFailure (str_error e))"
  have count: "fst (snd ?q)
     = p\<lparr>stats := (stats p)\<lparr>queries_processed := queries_processed (stats p) + 1\<rparr>\<rparr>"
    by (rule query_pipeline)
  have caught: "\<exists>result. fst ?q = Inr result"
    by (rule query_returns)
  have embedding: ?fail if "get_embedding env uq = Inl e"
    by (rule query_catches [OF query_body_embedding_raises [OF that]])
  have searching: ?fail
    if "get_embedding env uq = Inr qv"
      and "fst (search qv k (DMName (actual_distance_metric metric p)) flt w) = Inl e"
    by (rule query_catches [OF query_body_search_raises [OF that]])
  have generation: ?fail
    if "get_embedding env uq = Inr qv"
      and "fst (search qv k (DMName (actual_distance_metric metric p)) flt w) = Inr res"
      and "chat_run env
             [system_message style,
              user_message
                (join [newline, newline]
                   (map (\<lambda>r. text_for_key (text_to_key (vdb w)) (fst r)) res)) uq] 0
           = Inl e"
    by (rule query_catches [OF query_body_chat_raises [OF that]])
  show ?thesis using count caught embedding searching generation by blast
qed

theorem query_counts_and_catches_witness:
  "queries_processed (stats (fst (snd (query failing_chat ''why?'' 1 None ''detailed'' False
     None fresh_pipeline two_chunks)))) = 1
   \<and> fst (query failing_chat ''why?'' 1 None ''detailed'' False None fresh_pipeline
            two_chunks)
       = Inr (QueryFailure ''rate limit'')
   \<and> fst (query failing_embedding ''why?'' 1 None ''detailed'' False None fresh_pipeline
            two_chunks)
       = Inr (QueryFailure ''no api key'')
   \<and> fst (query wrong_dimension ''why?'' 1 None ''detailed'' False None fresh_pipeline
            two_chunks)
       = Inr (QueryFailure ''shapes not aligned'')"
proof -
  have e: "get_embedding failing_chat ''why?'' = Inr [1, 0]"
    by (simp add: failing_chat_def)
  have s: "fst (search [1, 0] 1 (DMName (actual_distance_metric None fresh_pipeline)) None
                  two_chunks)
             = Inr [(''chunk_0'', Float 1, 0)]"
    by (simp add: search_eval two_chunks_def actual_distance_metric_def fresh_pipeline_def)
  have c: "chat_run failing_chat
             [system_message ''detailed'',
              user_message
                (join [newline, newline]
                   (map (\<lambda>r. text_for_key (text_to_key (vdb two_chunks)) (fst r))
                      [(''chunk_0'', Float 1, 0)])) ''why?''] 0
             = Inl (Exception ''rate limit'')"
    by (simp add: failing_chat_def)
  have e2: "get_embedding failing_embedding ''why?'' = Inl (Exception ''no api key'')"
    by (simp add: failing_embedding_def)
  have e3: "get_embedding wrong_dimension ''why?'' = Inr [1, 0, 0]"
    by (simp add: wrong_dimension_def)
  have s3: "fst (search [1, 0, 0] 1 (DMName (actual_distance_metric None fresh_pipeline)) None
                  two_chunks)
             = Inl (ValueError ''shapes not aligned'')"
    by (simp add: search_eval two_chunks_def actual_distance_metric_def fresh_pipeline_def)
  show ?thesis
    using e s c e2 e3 s3
      query_counts_and_catches [of failing_chat "''why?''" 1 None "''detailed''" False None
        fresh_pipeline two_chunks "Exception ''rate limit''" "[1, 0]"
        "[(''chunk_0'', Float 1, 0)]"]
      query_counts_and_catches [of failing_embedding "''why?''" 1 None "''detailed''" False
        None fresh_pipeline two_chunks "Exception ''no api key''"]
      query_counts_and_catches [of wrong_dimension "''why?''" 1 None "''detailed''" False
        None fresh_pipeline two_chunks "ValueError ''shapes not aligned''" "[1, 0, 0]"]
    by (simp add: fresh_pipeline_def)
qed

end
